theory Spec2Isabelle
  imports Main "HOL-Library.Word"
begin

section \<open>Data model\<close>

text \<open>
  The firmware side of the settings RPC module: \<^verbatim>\<open>src/studio/settings_rpc_handler.c\<close>
  (the notification-streamed handler), its earlier revision with the bounded wait and the
  static collection array, and the listeners in \<^verbatim>\<open>src/events/\<close>. Unsigned C integers
  are words of their width; an event structure is a record; the event manager, the log
  and the studio notification channel are a trace of effects returned by each function.
\<close>

type_synonym u8 = "8 word"
type_synonym u32 = "32 word"

text \<open>
  \<^verbatim>\<open>ZMK_RELAY_EVENT_SOURCE_SELF\<close> is declared by the relay of the ZMK tree; the value is
  the one the event header documents: "0xFF for self, 0 for central, 1+ for peripherals".
\<close>

definition ZMK_RELAY_EVENT_SOURCE_SELF :: u8 where
  "ZMK_RELAY_EVENT_SOURCE_SELF = 0xFF"

definition MAX_PERIPHERALS :: nat where
  "MAX_PERIPHERALS = 8"

definition ZMK_EV_EVENT_BUBBLE :: int where
  "ZMK_EV_EVENT_BUBBLE = 0"

record zmk_activity_settings_changed =
  chg_idle_ms :: u32
  chg_sleep_ms :: u32
  chg_source :: u8

record zmk_activity_settings_request =
  req_request_id :: u8

record zmk_activity_settings_report =
  rep_idle_ms :: u32
  rep_sleep_ms :: u32
  rep_source :: u8
  rep_request_id :: u8

text \<open>The protobuf message \<^verbatim>\<open>zmk_settings_ActivitySettings\<close>.\<close>

record zmk_settings_ActivitySettings =
  idle_ms :: u32
  sleep_ms :: u32
  source :: u32

text \<open>An event header \<^verbatim>\<open>zmk_event_t\<close>; the casts \<^verbatim>\<open>as_zmk_...\<close> are case distinctions.\<close>

datatype zmk_event =
    Activity_settings_changed zmk_activity_settings_changed
  | Activity_settings_request zmk_activity_settings_request
  | Activity_settings_report zmk_activity_settings_report

text \<open>
  What a function does to the outside, in program order: an event raised on the event
  manager, a studio notification (with the subsystem index it is sent under), and the
  warnings and errors it logs. Debug-level logging is left out.
\<close>

datatype effect =
    Raise zmk_event
  | Studio_notification u8 zmk_settings_ActivitySettings
  | Log_err_idle u32
  | Log_err_sleep u32
  | Log_wrn_decode
  | Log_wrn_unsupported nat
  | Log_wrn_mismatch zmk_settings_ActivitySettings

text \<open>The three build switches the handlers test with \<^verbatim>\<open>IS_ENABLED\<close>.\<close>

record config =
  CONFIG_ZMK_SPLIT :: bool
  CONFIG_ZMK_SPLIT_ROLE_CENTRAL :: bool
  CONFIG_ZMK_SPLIT_RELAY_EVENT :: bool

subsection \<open>The settings store\<close>

text \<open>
  Modelled from the spec: the settings store \<^verbatim>\<open>zmk/activity.h\<close> of the ZMK tree
  (\<^verbatim>\<open>zmk_activity_get_idle_ms\<close>, \<^verbatim>\<open>zmk_activity_set_idle_ms\<close> and the two for
  \<^verbatim>\<open>sleep_ms\<close>), which this repository calls and does not contain. The store holds the
  two timeouts; a setter "fails only if a bound is violated; success is otherwise
  unconditional and immediately visible to subsequent get". The bounds are a parameter:
  one acceptance test per setter. A rejected write leaves the store as it was.
\<close>

record activity_state =
  act_idle_ms :: u32
  act_sleep_ms :: u32

record activity_bounds =
  idle_ok :: "u32 \<Rightarrow> bool"
  sleep_ok :: "u32 \<Rightarrow> bool"

definition zmk_activity_get_idle_ms :: "activity_state \<Rightarrow> u32" where
  "zmk_activity_get_idle_ms s = act_idle_ms s"

definition zmk_activity_get_sleep_ms :: "activity_state \<Rightarrow> u32" where
  "zmk_activity_get_sleep_ms s = act_sleep_ms s"

definition zmk_activity_set_idle_ms ::
  "activity_bounds \<Rightarrow> u32 \<Rightarrow> activity_state \<Rightarrow> bool \<times> activity_state" where
  "zmk_activity_set_idle_ms b ms s =
     (if idle_ok b ms then (True, s\<lparr>act_idle_ms := ms\<rparr>) else (False, s))"

definition zmk_activity_set_sleep_ms ::
  "activity_bounds \<Rightarrow> u32 \<Rightarrow> activity_state \<Rightarrow> bool \<times> activity_state" where
  "zmk_activity_set_sleep_ms b ms s =
     (if sleep_ok b ms then (True, s\<lparr>act_sleep_ms := ms\<rparr>) else (False, s))"

subsection \<open>The state of a node\<close>

text \<open>
  The static variables of the handler: \<^verbatim>\<open>subsystem_index\<close> of the streamed handler, and
  \<^verbatim>\<open>settings_collection\<close> of the bounded one, an array of \<^verbatim>\<open>MAX_PERIPHERALS + 1\<close>
  entries with its fill count and the id of the running request.
\<close>

record settings_collection_t =
  settings :: "zmk_settings_ActivitySettings list"
  count :: u8
  request_id :: u8

record node =
  activity :: activity_state
  subsystem_index :: u8
  settings_collection :: settings_collection_t

definition zero_settings :: zmk_settings_ActivitySettings where
  "zero_settings = \<lparr>idle_ms = 0, sleep_ms = 0, source = 0\<rparr>"

definition settings_collection_init :: settings_collection_t where
  "settings_collection_init =
     \<lparr>settings = replicate (MAX_PERIPHERALS + 1) zero_settings, count = 0, request_id = 0\<rparr>"

section \<open>Applying a relayed change\<close>

text \<open>
  \<^verbatim>\<open>activity_settings_changed_listener\<close>, the same text in every copy of the handler and in
  \<^verbatim>\<open>src/events/activity_settings_changed.c\<close>. The results of the two setters are dropped.
\<close>

definition activity_settings_changed_listener ::
  "activity_bounds \<Rightarrow> zmk_event \<Rightarrow> node \<Rightarrow> int \<times> node" where
  "activity_settings_changed_listener b eh n =
     (case eh of
        Activity_settings_changed ev \<Rightarrow>
          (if chg_source ev \<noteq> ZMK_RELAY_EVENT_SOURCE_SELF then
             (let (r1, a1) = zmk_activity_set_idle_ms b (chg_idle_ms ev) (activity n);
                  (r2, a2) = zmk_activity_set_sleep_ms b (chg_sleep_ms ev) a1
              in (ZMK_EV_EVENT_BUBBLE, n\<lparr>activity := a2\<rparr>))
           else (ZMK_EV_EVENT_BUBBLE, n))
      | _ \<Rightarrow> (ZMK_EV_EVENT_BUBBLE, n))"

section \<open>The request handlers\<close>

text \<open>
  The response buffer \<^verbatim>\<open>zmk_settings_Response\<close>: a tagged union. The two revisions of
  the handler differ in the message that answers get-all, so it is a type parameter.
  A handler returns its \<^verbatim>\<open>int\<close> result, the response it wrote, the node and its effects.
\<close>

datatype 'g zmk_settings_Response =
    Response_error string
  | Response_get_activity_settings zmk_settings_ActivitySettings
  | Response_set_activity_settings bool
  | Response_get_all_activity_settings 'g

text \<open>
  A decoded \<^verbatim>\<open>zmk_settings_Request\<close>: the three request kinds, and any other value of
  \<^verbatim>\<open>which_request_type\<close> (0 when the payload names none).
\<close>

datatype zmk_settings_Request =
    Request_get_activity_settings
  | Request_set_activity_settings zmk_settings_ActivitySettings
  | Request_get_all_activity_settings
  | Request_other nat

record zmk_custom_CallRequest =
  call_subsystem_index :: u32
  payload :: "u8 list"

text \<open>The message of the streamed revision, and the one of the bounded revision.\<close>

record get_all_started =
  request_sent :: bool

record get_all_collected =
  all_settings :: "zmk_settings_ActivitySettings list"
  in_sync :: bool

definition send_activity_settings_notification :: "u32 \<Rightarrow> u32 \<Rightarrow> u32 \<Rightarrow> node \<Rightarrow> effect list" where
  "send_activity_settings_notification idle sleep src n =
     [Studio_notification (subsystem_index n) \<lparr>idle_ms = idle, sleep_ms = sleep, source = src\<rparr>]"

definition handle_get_activity_settings ::
  "node \<Rightarrow> int \<times> 'g zmk_settings_Response \<times> node \<times> effect list" where
  "handle_get_activity_settings n =
     (let result = zero_settings\<lparr>idle_ms := zmk_activity_get_idle_ms (activity n),
                                 sleep_ms := zmk_activity_get_sleep_ms (activity n)\<rparr>
      in (0, Response_get_activity_settings result, n, []))"

text \<open>
  Raising a change event runs the subscribers of the node itself before it returns;
  that is the apply listener. The relay sees the event in the trace.
\<close>

definition raise_zmk_activity_settings_changed ::
  "activity_bounds \<Rightarrow> zmk_activity_settings_changed \<Rightarrow> node \<Rightarrow> node \<times> effect list" where
  "raise_zmk_activity_settings_changed b ev n =
     (snd (activity_settings_changed_listener b (Activity_settings_changed ev) n),
      [Raise (Activity_settings_changed ev)])"

text \<open>
  The set handler of \<^verbatim>\<open>src/studio/settings_rpc_handler.c\<close> and of the bounded revision:
  the raise is inside \<^verbatim>\<open>#if IS_ENABLED(CONFIG_ZMK_SPLIT_RELAY_EVENT)\<close>.
\<close>

definition handle_set_activity_settings ::
  "config \<Rightarrow> activity_bounds \<Rightarrow> zmk_settings_ActivitySettings \<Rightarrow> node \<Rightarrow>
   int \<times> 'g zmk_settings_Response \<times> node \<times> effect list" where
  "handle_set_activity_settings cfg b req n =
     (let (ok_idle, a1) = zmk_activity_set_idle_ms b (idle_ms req) (activity n);
          (ok_sleep, a2) = zmk_activity_set_sleep_ms b (sleep_ms req) a1;
          success = (ok_idle \<and> ok_sleep);
          logs = (if ok_idle then [] else [Log_err_idle (idle_ms req)]) @
                 (if ok_sleep then [] else [Log_err_sleep (sleep_ms req)]);
          n1 = n\<lparr>activity := a2\<rparr>;
          (n2, raised) =
            (if success \<and> CONFIG_ZMK_SPLIT_RELAY_EVENT cfg then
               raise_zmk_activity_settings_changed b
                 \<lparr>chg_idle_ms = idle_ms req, chg_sleep_ms = sleep_ms req,
                  chg_source = ZMK_RELAY_EVENT_SOURCE_SELF\<rparr> n1
             else (n1, []))
      in (if success then 0 else - 1, Response_set_activity_settings success, n2, logs @ raised))"

text \<open>
  The copy of the set handler in \<^verbatim>\<open>src/unnamed/part_001\<close>, the first revision: the same
  text with the raise inside \<^verbatim>\<open>if (success)\<close> and no \<^verbatim>\<open>#if\<close> around it, so no build
  switch is read.
\<close>

definition handle_set_activity_settings_part_001 ::
  "activity_bounds \<Rightarrow> zmk_settings_ActivitySettings \<Rightarrow> node \<Rightarrow>
   int \<times> 'g zmk_settings_Response \<times> node \<times> effect list" where
  "handle_set_activity_settings_part_001 b req n =
     (let (ok_idle, a1) = zmk_activity_set_idle_ms b (idle_ms req) (activity n);
          (ok_sleep, a2) = zmk_activity_set_sleep_ms b (sleep_ms req) a1;
          success = (ok_idle \<and> ok_sleep);
          logs = (if ok_idle then [] else [Log_err_idle (idle_ms req)]) @
                 (if ok_sleep then [] else [Log_err_sleep (sleep_ms req)]);
          n1 = n\<lparr>activity := a2\<rparr>;
          (n2, raised) =
            (if success then
               raise_zmk_activity_settings_changed b
                 \<lparr>chg_idle_ms = idle_ms req, chg_sleep_ms = sleep_ms req,
                  chg_source = ZMK_RELAY_EVENT_SOURCE_SELF\<rparr> n1
             else (n1, []))
      in (if success then 0 else - 1, Response_set_activity_settings success, n2, logs @ raised))"

subsection \<open>Get-all, streamed through notifications\<close>

definition handle_get_all_activity_settings ::
  "config \<Rightarrow> node \<Rightarrow> int \<times> get_all_started zmk_settings_Response \<times> node \<times> effect list" where
  "handle_get_all_activity_settings cfg n =
     (let sent = send_activity_settings_notification
                   (zmk_activity_get_idle_ms (activity n))
                   (zmk_activity_get_sleep_ms (activity n)) 0 n;
          raised = (if CONFIG_ZMK_SPLIT cfg \<and> CONFIG_ZMK_SPLIT_ROLE_CENTRAL cfg then
                      [Raise (Activity_settings_request \<lparr>req_request_id = 0\<rparr>)]
                    else [])
      in (0, Response_get_all_activity_settings \<lparr>request_sent = True\<rparr>, n, sent @ raised))"

definition activity_settings_report_listener :: "zmk_event \<Rightarrow> node \<Rightarrow> int \<times> node \<times> effect list" where
  "activity_settings_report_listener eh n =
     (case eh of
        Activity_settings_report ev \<Rightarrow>
          (ZMK_EV_EVENT_BUBBLE, n,
           send_activity_settings_notification (rep_idle_ms ev) (rep_sleep_ms ev)
             (ucast (rep_source ev)) n)
      | _ \<Rightarrow> (ZMK_EV_EVENT_BUBBLE, n, []))"

subsection \<open>The peripheral's answer to a request\<close>

definition activity_settings_request_listener :: "zmk_event \<Rightarrow> node \<Rightarrow> int \<times> node \<times> effect list" where
  "activity_settings_request_listener eh n =
     (case eh of
        Activity_settings_request ev \<Rightarrow>
          (let report = \<lparr>rep_idle_ms = zmk_activity_get_idle_ms (activity n),
                         rep_sleep_ms = zmk_activity_get_sleep_ms (activity n),
                         rep_source = ZMK_RELAY_EVENT_SOURCE_SELF,
                         rep_request_id = req_request_id ev\<rparr>
           in (ZMK_EV_EVENT_BUBBLE, n, [Raise (Activity_settings_report report)]))
      | _ \<Rightarrow> (ZMK_EV_EVENT_BUBBLE, n, []))"

subsection \<open>Get-all, collected within a bounded wait\<close>

text \<open>
  The earlier revision of the handler. Its report listener fills the static array while
  the request handler sleeps for 100 ms.
\<close>

definition activity_settings_report_listener_sync ::
  "zmk_event \<Rightarrow> settings_collection_t \<Rightarrow> int \<times> settings_collection_t" where
  "activity_settings_report_listener_sync eh c =
     (case eh of
        Activity_settings_report ev \<Rightarrow>
          (if rep_request_id ev \<noteq> request_id c then (ZMK_EV_EVENT_BUBBLE, c)
           else if unat (count c) < MAX_PERIPHERALS then
             (ZMK_EV_EVENT_BUBBLE,
              c\<lparr>settings := (settings c)[unat (count c) :=
                               \<lparr>idle_ms = rep_idle_ms ev, sleep_ms = rep_sleep_ms ev,
                                source = ucast (rep_source ev)\<rparr>],
                count := count c + 1\<rparr>)
           else (ZMK_EV_EVENT_BUBBLE, c))
      | _ \<Rightarrow> (ZMK_EV_EVENT_BUBBLE, c))"

text \<open>
  \<^verbatim>\<open>k_sleep(K_MSEC(100))\<close>: the handler's thread is suspended and the events that arrive
  from the link in that window are delivered to the report listener, in order.
\<close>

fun k_sleep :: "zmk_event list \<Rightarrow> settings_collection_t \<Rightarrow> settings_collection_t" where
  "k_sleep [] c = c"
| "k_sleep (eh # ehs) c = k_sleep ehs (snd (activity_settings_report_listener_sync eh c))"

text \<open>The loop that copies the collected entries behind the central's own.\<close>

function copy_collected ::
  "settings_collection_t \<Rightarrow> nat \<Rightarrow> zmk_settings_ActivitySettings list \<Rightarrow>
   zmk_settings_ActivitySettings list" where
  "copy_collected c i res =
     (if i < unat (count c) \<and> i < MAX_PERIPHERALS
      then copy_collected c (i + 1) (res @ [settings c ! i])
      else res)"
  by pat_completeness auto
termination
  by (relation "measure (\<lambda>(c, i, res). MAX_PERIPHERALS - i)") auto

declare copy_collected.simps [simp del]

text \<open>The comparison loop, from index \<open>i\<close>; it stops at the first entry that differs.\<close>

function in_sync_loop ::
  "zmk_settings_ActivitySettings list \<Rightarrow> u32 \<Rightarrow> u32 \<Rightarrow> nat \<Rightarrow> bool \<times> effect list" where
  "in_sync_loop res ref_idle ref_sleep i =
     (if i < length res then
        (if idle_ms (res ! i) \<noteq> ref_idle \<or> sleep_ms (res ! i) \<noteq> ref_sleep
         then (False, [Log_wrn_mismatch (res ! i)])
         else in_sync_loop res ref_idle ref_sleep (i + 1))
      else (True, []))"
  by pat_completeness auto
termination
  by (relation "measure (\<lambda>(res, ref_idle, ref_sleep, i). length res - i)") auto

declare in_sync_loop.simps [simp del]

definition check_in_sync :: "zmk_settings_ActivitySettings list \<Rightarrow> bool \<times> effect list" where
  "check_in_sync res =
     (if length res > 1 then in_sync_loop res (idle_ms (res ! 0)) (sleep_ms (res ! 0)) 1
      else (True, []))"

text \<open>The handler up to the wait: the reset, the central's own entry and the request.\<close>

definition get_all_before_wait ::
  "node \<Rightarrow> zmk_settings_ActivitySettings list \<times> node \<times> effect list" where
  "get_all_before_wait n =
     (let c1 = (settings_collection n)\<lparr>count := 0\<rparr>;
          c2 = c1\<lparr>request_id := request_id c1 + 1\<rparr>;
          res = [\<lparr>idle_ms = zmk_activity_get_idle_ms (activity n),
                  sleep_ms = zmk_activity_get_sleep_ms (activity n), source = 0\<rparr>];
          request_event = \<lparr>req_request_id = request_id c2\<rparr>
      in (res, n\<lparr>settings_collection := c2\<rparr>, [Raise (Activity_settings_request request_event)]))"

definition handle_get_all_activity_settings_sync ::
  "config \<Rightarrow> zmk_event list \<Rightarrow> node \<Rightarrow>
   int \<times> get_all_collected zmk_settings_Response \<times> node \<times> effect list" where
  "handle_get_all_activity_settings_sync cfg arrivals n =
     (if CONFIG_ZMK_SPLIT cfg \<and> CONFIG_ZMK_SPLIT_ROLE_CENTRAL cfg then
        (let (res0, n1, raised) = get_all_before_wait n;
             c = k_sleep arrivals (settings_collection n1);
             res = copy_collected c 0 res0;
             (sync, logs) = check_in_sync res
         in (0, Response_get_all_activity_settings \<lparr>all_settings = res, in_sync = sync\<rparr>,
             n1\<lparr>settings_collection := c\<rparr>, raised @ logs))
      else
        (let res = [\<lparr>idle_ms = zmk_activity_get_idle_ms (activity n),
                     sleep_ms = zmk_activity_get_sleep_ms (activity n), source = 0\<rparr>]
         in (0, Response_get_all_activity_settings \<lparr>all_settings = res, in_sync = True\<rparr>, n, [])))"

subsection \<open>The request router\<close>

text \<open>
  \<^verbatim>\<open>settings_rpc_handle_request\<close>. The decoder \<^verbatim>\<open>pb_decode\<close> belongs to nanopb and is a
  parameter: it yields the decoded request, or nothing when the payload is malformed.
  The streamed revision stores the subsystem index of the call first. An unsupported
  kind sets the result to \<open>-1\<close> with no handler called, so the error response is written.
\<close>

definition error_on_failure ::
  "int \<times> 'g zmk_settings_Response \<times> node \<times> effect list \<Rightarrow>
   bool \<times> 'g zmk_settings_Response \<times> node \<times> effect list" where
  "error_on_failure r =
     (case r of (rc, resp, n, effs) \<Rightarrow>
        (True, if rc \<noteq> 0 then Response_error ''Failed to process request'' else resp, n, effs))"

definition settings_rpc_handle_request ::
  "config \<Rightarrow> activity_bounds \<Rightarrow> (u8 list \<Rightarrow> zmk_settings_Request option) \<Rightarrow>
   zmk_custom_CallRequest \<Rightarrow> node \<Rightarrow>
   bool \<times> get_all_started zmk_settings_Response \<times> node \<times> effect list" where
  "settings_rpc_handle_request cfg b pb_decode raw_request n0 =
     (let n = n0\<lparr>subsystem_index := ucast (call_subsystem_index raw_request)\<rparr>
      in case pb_decode (payload raw_request) of
           None \<Rightarrow> (True, Response_error ''Failed to decode request'', n, [Log_wrn_decode])
         | Some Request_get_activity_settings \<Rightarrow>
             error_on_failure (handle_get_activity_settings n)
         | Some (Request_set_activity_settings req) \<Rightarrow>
             error_on_failure (handle_set_activity_settings cfg b req n)
         | Some Request_get_all_activity_settings \<Rightarrow>
             error_on_failure (handle_get_all_activity_settings cfg n)
         | Some (Request_other t) \<Rightarrow>
             (True, Response_error ''Failed to process request'', n, [Log_wrn_unsupported t]))"

definition settings_rpc_handle_request_sync ::
  "config \<Rightarrow> activity_bounds \<Rightarrow> (u8 list \<Rightarrow> zmk_settings_Request option) \<Rightarrow>
   zmk_event list \<Rightarrow> zmk_custom_CallRequest \<Rightarrow> node \<Rightarrow>
   bool \<times> get_all_collected zmk_settings_Response \<times> node \<times> effect list" where
  "settings_rpc_handle_request_sync cfg b pb_decode arrivals raw_request n =
     (case pb_decode (payload raw_request) of
        None \<Rightarrow> (True, Response_error ''Failed to decode request'', n, [Log_wrn_decode])
      | Some Request_get_activity_settings \<Rightarrow>
          error_on_failure (handle_get_activity_settings n)
      | Some (Request_set_activity_settings req) \<Rightarrow>
          error_on_failure (handle_set_activity_settings cfg b req n)
      | Some Request_get_all_activity_settings \<Rightarrow>
          error_on_failure (handle_get_all_activity_settings_sync cfg arrivals n)
      | Some (Request_other t) \<Rightarrow>
          (True, Response_error ''Failed to process request'', n, [Log_wrn_unsupported t]))"

section \<open>Reading a result\<close>

text \<open>The components of what a handler returns, and the events and warnings in a trace.\<close>

definition result_of :: "'r \<times> 'p \<times> node \<times> effect list \<Rightarrow> 'r" where
  "result_of r = fst r"

definition response_of :: "'r \<times> 'p \<times> node \<times> effect list \<Rightarrow> 'p" where
  "response_of r = fst (snd r)"

definition node_of :: "'r \<times> 'p \<times> node \<times> effect list \<Rightarrow> node" where
  "node_of r = fst (snd (snd r))"

definition effects_of :: "'r \<times> 'p \<times> node \<times> effect list \<Rightarrow> effect list" where
  "effects_of r = snd (snd (snd r))"

fun raised :: "effect list \<Rightarrow> zmk_event list" where
  "raised [] = []"
| "raised (Raise ev # es) = ev # raised es"
| "raised (e # es) = raised es"

fun warned :: "effect list \<Rightarrow> zmk_settings_ActivitySettings list" where
  "warned [] = []"
| "warned (Log_wrn_mismatch s # es) = s # warned es"
| "warned (e # es) = warned es"

text \<open>The store accepts a value when both setters accept their field.\<close>

definition store_accepts :: "activity_bounds \<Rightarrow> zmk_settings_ActivitySettings \<Rightarrow> bool" where
  "store_accepts b v = (idle_ok b (idle_ms v) \<and> sleep_ok b (sleep_ms v))"

text \<open>
  The entries that the reports of a window carry for a given request id, in arrival
  order: what the central should have collected from them.
\<close>

fun accepted_reports :: "u8 \<Rightarrow> zmk_event list \<Rightarrow> zmk_settings_ActivitySettings list" where
  "accepted_reports rid [] = []"
| "accepted_reports rid (Activity_settings_report r # evs) =
     (if rep_request_id r = rid
      then [\<lparr>idle_ms = rep_idle_ms r, sleep_ms = rep_sleep_ms r, source = ucast (rep_source r)\<rparr>]
      else []) @ accepted_reports rid evs"
| "accepted_reports rid (eh # evs) = accepted_reports rid evs"

section \<open>The states a node can be in\<close>

text \<open>
  A node boots with the collection as its initializer leaves it. From there the report
  listener runs on whatever event is delivered, and the handlers run on requests.
\<close>

inductive reachable :: "config \<Rightarrow> activity_bounds \<Rightarrow> node \<Rightarrow> bool"
  for cfg :: config and b :: activity_bounds where
    boot: "settings_collection n = settings_collection_init \<Longrightarrow> reachable cfg b n"
  | report_delivered:
      "reachable cfg b n \<Longrightarrow>
       reachable cfg b
         (n\<lparr>settings_collection :=
              snd (activity_settings_report_listener_sync eh (settings_collection n))\<rparr>)"
  | change_delivered:
      "reachable cfg b n \<Longrightarrow> reachable cfg b (snd (activity_settings_changed_listener b eh n))"
  | set_handled:
      "reachable cfg b n \<Longrightarrow>
       reachable cfg b
         (node_of (handle_set_activity_settings cfg b v n
            :: int \<times> get_all_collected zmk_settings_Response \<times> node \<times> effect list))"
  | get_all_handled:
      "reachable cfg b n \<Longrightarrow>
       reachable cfg b (node_of (handle_get_all_activity_settings_sync cfg arrivals n))"

section \<open>Concrete stores and nodes\<close>

text \<open>A store that accepts every value, and one that refuses a zero sleep timeout.\<close>

definition accept_all :: activity_bounds where
  "accept_all = \<lparr>idle_ok = (\<lambda>ms. True), sleep_ok = (\<lambda>ms. True)\<rparr>"

definition refuse_zero_sleep :: activity_bounds where
  "refuse_zero_sleep = \<lparr>idle_ok = (\<lambda>ms. True), sleep_ok = (\<lambda>ms. ms \<noteq> 0)\<rparr>"

definition split_central :: config where
  "split_central = \<lparr>CONFIG_ZMK_SPLIT = True, CONFIG_ZMK_SPLIT_ROLE_CENTRAL = True,
                     CONFIG_ZMK_SPLIT_RELAY_EVENT = True\<rparr>"

definition split_peripheral :: config where
  "split_peripheral = \<lparr>CONFIG_ZMK_SPLIT = True, CONFIG_ZMK_SPLIT_ROLE_CENTRAL = False,
                        CONFIG_ZMK_SPLIT_RELAY_EVENT = True\<rparr>"

definition standalone :: config where
  "standalone = \<lparr>CONFIG_ZMK_SPLIT = False, CONFIG_ZMK_SPLIT_ROLE_CENTRAL = False,
                  CONFIG_ZMK_SPLIT_RELAY_EVENT = False\<rparr>"

definition node0 :: node where
  "node0 = \<lparr>activity = \<lparr>act_idle_ms = 30000, act_sleep_ms = 900000\<rparr>,
            subsystem_index = 0,
            settings_collection = settings_collection_init\<rparr>"

text \<open>
  Reports of two peripherals for request 1, the first in step with \<open>node0\<close> and the second
  not, and a late report that answers request 0.
\<close>

definition report_A :: zmk_activity_settings_report where
  "report_A = \<lparr>rep_idle_ms = 30000, rep_sleep_ms = 900000, rep_source = 1, rep_request_id = 1\<rparr>"

definition report_B :: zmk_activity_settings_report where
  "report_B = \<lparr>rep_idle_ms = 10000, rep_sleep_ms = 900000, rep_source = 2, rep_request_id = 1\<rparr>"

definition report_late :: zmk_activity_settings_report where
  "report_late = \<lparr>rep_idle_ms = 1000, rep_sleep_ms = 2000, rep_source = 2, rep_request_id = 0\<rparr>"

definition nine_reports :: "zmk_event list" where
  "nine_reports =
     [Activity_settings_report report_A, Activity_settings_report report_A,
      Activity_settings_report report_A, Activity_settings_report report_A,
      Activity_settings_report report_A, Activity_settings_report report_A,
      Activity_settings_report report_A, Activity_settings_report report_A,
      Activity_settings_report report_B]"

section \<open>The store and the set handler, computed\<close>

lemma set_idle_simp:
  "zmk_activity_set_idle_ms b ms s =
     (idle_ok b ms, if idle_ok b ms then s\<lparr>act_idle_ms := ms\<rparr> else s)"
  by (simp add: zmk_activity_set_idle_ms_def)

lemma set_sleep_simp:
  "zmk_activity_set_sleep_ms b ms s =
     (sleep_ok b ms, if sleep_ok b ms then s\<lparr>act_sleep_ms := ms\<rparr> else s)"
  by (simp add: zmk_activity_set_sleep_ms_def)

lemma raised_append: "raised (xs @ ys) = raised xs @ raised ys"
  by (induction xs rule: raised.induct) simp_all

text \<open>
  The set handler in one equation: both setters always run, the event is raised only
  when both accepted and the relay is compiled in, and the apply listener that the
  raise runs on the node itself sees the self marker and leaves the store alone.
\<close>

lemma handle_set_eq:
  "(handle_set_activity_settings cfg b v n
      :: int \<times> 'g zmk_settings_Response \<times> node \<times> effect list) =
     (if store_accepts b v then 0 else - 1,
      Response_set_activity_settings (store_accepts b v),
      n\<lparr>activity :=
          \<lparr>act_idle_ms = (if idle_ok b (idle_ms v) then idle_ms v
                          else act_idle_ms (activity n)),
           act_sleep_ms = (if sleep_ok b (sleep_ms v) then sleep_ms v
                           else act_sleep_ms (activity n))\<rparr>\<rparr>,
      (if idle_ok b (idle_ms v) then [] else [Log_err_idle (idle_ms v)]) @
      (if sleep_ok b (sleep_ms v) then [] else [Log_err_sleep (sleep_ms v)]) @
      (if store_accepts b v \<and> CONFIG_ZMK_SPLIT_RELAY_EVENT cfg
       then [Raise (Activity_settings_changed
                \<lparr>chg_idle_ms = idle_ms v, chg_sleep_ms = sleep_ms v,
                 chg_source = ZMK_RELAY_EVENT_SOURCE_SELF\<rparr>)]
       else []))"
  by (simp add: handle_set_activity_settings_def set_idle_simp set_sleep_simp store_accepts_def
      raise_zmk_activity_settings_changed_def activity_settings_changed_listener_def Let_def)

section \<open>The bounded collection, step by step\<close>

lemma report_listener_sync_eq:
  "activity_settings_report_listener_sync (Activity_settings_report r) c =
     (ZMK_EV_EVENT_BUBBLE,
      if rep_request_id r = request_id c \<and> unat (count c) < MAX_PERIPHERALS
      then c\<lparr>settings := (settings c)[unat (count c) :=
                  \<lparr>idle_ms = rep_idle_ms r, sleep_ms = rep_sleep_ms r,
                   source = ucast (rep_source r)\<rparr>],
              count := count c + 1\<rparr>
      else c)"
  by (simp add: activity_settings_report_listener_sync_def)

lemma report_listener_sync_other:
  "activity_settings_report_listener_sync (Activity_settings_changed e) c = (ZMK_EV_EVENT_BUBBLE, c)"
  "activity_settings_report_listener_sync (Activity_settings_request q) c = (ZMK_EV_EVENT_BUBBLE, c)"
  by (simp_all add: activity_settings_report_listener_sync_def)

lemma unat_count_succ:
  fixes k :: u8
  assumes "unat k < MAX_PERIPHERALS"
  shows "unat (k + 1) = unat k + 1"
proof -
  have "unat k + 1 < 2 ^ 8" using assms by (simp add: MAX_PERIPHERALS_def)
  then have "unat k + unat (1 :: u8) < 2 ^ LENGTH(8)" by simp
  then have "unat (k + 1) = unat k + unat (1 :: u8)" by (simp only: unat_add_lem [THEN iffD1])
  then show ?thesis by simp
qed

text \<open>What the listener keeps: the request id, the size of the array, the bound on the count.\<close>

lemma report_listener_sync_keeps:
  "request_id (snd (activity_settings_report_listener_sync eh c)) = request_id c"
  "length (settings (snd (activity_settings_report_listener_sync eh c))) = length (settings c)"
  by (cases eh; simp add: report_listener_sync_eq report_listener_sync_other)+

lemma report_listener_sync_count:
  assumes "unat (count c) \<le> MAX_PERIPHERALS"
  shows "unat (count (snd (activity_settings_report_listener_sync eh c))) \<le> MAX_PERIPHERALS"
proof (cases eh)
  case (Activity_settings_report r)
  show ?thesis
  proof (cases "rep_request_id r = request_id c \<and> unat (count c) < MAX_PERIPHERALS")
    case True
    then have "unat (count c + 1) = unat (count c) + 1" by (simp add: unat_count_succ)
    with True Activity_settings_report show ?thesis by (simp add: report_listener_sync_eq)
  next
    case False
    with assms Activity_settings_report show ?thesis
      by (auto simp: report_listener_sync_eq)
  qed
qed (simp_all add: report_listener_sync_other assms)

lemma report_listener_sync_full:
  assumes "unat (count c) \<ge> MAX_PERIPHERALS"
  shows "activity_settings_report_listener_sync eh c = (ZMK_EV_EVENT_BUBBLE, c)"
  using assms by (cases eh) (simp_all add: report_listener_sync_eq report_listener_sync_other)

lemma k_sleep_keeps:
  "request_id (k_sleep evs c) = request_id c"
  "length (settings (k_sleep evs c)) = length (settings c)"
  by (induction evs arbitrary: c; simp add: report_listener_sync_keeps)+

lemma k_sleep_count:
  "unat (count c) \<le> MAX_PERIPHERALS \<Longrightarrow> unat (count (k_sleep evs c)) \<le> MAX_PERIPHERALS"
  by (induction evs arbitrary: c) (simp_all add: report_listener_sync_count)

text \<open>The copy loop appends the first \<open>count\<close> entries of the array, eight at most.\<close>

lemma copy_collected_length:
  "length (copy_collected c i res) = length res + (min (unat (count c)) MAX_PERIPHERALS - i)"
proof (induction c i res rule: copy_collected.induct)
  case (1 c i res)
  show ?case
  proof (cases "i < unat (count c) \<and> i < MAX_PERIPHERALS")
    case True
    with "1" show ?thesis by (subst copy_collected.simps) auto
  next
    case False
    then show ?thesis by (subst copy_collected.simps) auto
  qed
qed

lemma copy_collected_eq:
  assumes "MAX_PERIPHERALS \<le> length (settings c)"
  shows "copy_collected c i res =
           res @ take (min (unat (count c)) MAX_PERIPHERALS - i) (drop i (settings c))"
  using assms
proof (induction c i res rule: copy_collected.induct)
  case (1 c i res)
  show ?case
  proof (cases "i < unat (count c) \<and> i < MAX_PERIPHERALS")
    case True
    then have len: "i < length (settings c)" using "1.prems" by simp
    have m: "min (unat (count c)) MAX_PERIPHERALS - i =
             Suc (min (unat (count c)) MAX_PERIPHERALS - (i + 1))"
      using True by auto
    have d: "drop i (settings c) = settings c ! i # drop (i + 1) (settings c)"
      using len by (simp add: Cons_nth_drop_Suc)
    have "copy_collected c i res = copy_collected c (i + 1) (res @ [settings c ! i])"
      using True by (subst copy_collected.simps) simp
    also have "\<dots> = (res @ [settings c ! i]) @
        take (min (unat (count c)) MAX_PERIPHERALS - (i + 1)) (drop (i + 1) (settings c))"
      using "1.IH" [OF True "1.prems"] .
    also have "\<dots> = res @ take (min (unat (count c)) MAX_PERIPHERALS - i) (drop i (settings c))"
      by (simp only: m d take_Suc_Cons append_assoc append_Cons append_Nil)
    finally show ?thesis .
  next
    case False
    then have "min (unat (count c)) MAX_PERIPHERALS - i = 0" by auto
    moreover have "copy_collected c i res = res"
      using False by (subst copy_collected.simps) auto
    ultimately show ?thesis by simp
  qed
qed

text \<open>The comparison loop: its verdict, and the entry it warns about.\<close>

lemma in_sync_loop_verdict:
  "fst (in_sync_loop res a s i) =
     (\<forall>j. i \<le> j \<and> j < length res \<longrightarrow> idle_ms (res ! j) = a \<and> sleep_ms (res ! j) = s)"
proof (induction res a s i rule: in_sync_loop.induct)
  case (1 res a s i)
  show ?case
  proof (cases "i < length res")
    case False
    then show ?thesis by (subst in_sync_loop.simps) auto
  next
    case inb: True
    show ?thesis
    proof (cases "idle_ms (res ! i) \<noteq> a \<or> sleep_ms (res ! i) \<noteq> s")
      case True
      then have "fst (in_sync_loop res a s i) = False"
        using inb by (subst in_sync_loop.simps) auto
      moreover have "\<not> (\<forall>j. i \<le> j \<and> j < length res \<longrightarrow>
                          idle_ms (res ! j) = a \<and> sleep_ms (res ! j) = s)"
        using True inb by auto
      ultimately show ?thesis by simp
    next
      case False
      then have "fst (in_sync_loop res a s i) = fst (in_sync_loop res a s (i + 1))"
        using inb by (subst in_sync_loop.simps) auto
      also have "\<dots> = (\<forall>j. i + 1 \<le> j \<and> j < length res \<longrightarrow>
                            idle_ms (res ! j) = a \<and> sleep_ms (res ! j) = s)"
        using "1.IH" [OF inb] False by simp
      also have "\<dots> = (\<forall>j. i \<le> j \<and> j < length res \<longrightarrow>
                            idle_ms (res ! j) = a \<and> sleep_ms (res ! j) = s)"
        using False by (metis Suc_eq_plus1 Suc_leI le_neq_implies_less add_leD1 le_refl order_trans
            Suc_le_eq less_imp_le_nat)
      finally show ?thesis .
    qed
  qed
qed

lemma in_sync_loop_warning:
  "snd (in_sync_loop res a s i) = [] \<and> fst (in_sync_loop res a s i)
   \<or> (\<exists>k. i \<le> k \<and> k < length res
          \<and> (idle_ms (res ! k) \<noteq> a \<or> sleep_ms (res ! k) \<noteq> s)
          \<and> (\<forall>j. i \<le> j \<and> j < k \<longrightarrow> idle_ms (res ! j) = a \<and> sleep_ms (res ! j) = s)
          \<and> in_sync_loop res a s i = (False, [Log_wrn_mismatch (res ! k)]))"
proof (induction res a s i rule: in_sync_loop.induct)
  case (1 res a s i)
  show ?case
  proof (cases "i < length res")
    case False
    then show ?thesis by (subst (1 2) in_sync_loop.simps) simp
  next
    case inb: True
    show ?thesis
    proof (cases "idle_ms (res ! i) \<noteq> a \<or> sleep_ms (res ! i) \<noteq> s")
      case True
      then have "in_sync_loop res a s i = (False, [Log_wrn_mismatch (res ! i)])"
        using inb by (subst in_sync_loop.simps) auto
      with True inb show ?thesis by (intro disjI2 exI [of _ i]) auto
    next
      case False
      then have step: "in_sync_loop res a s i = in_sync_loop res a s (i + 1)"
        using inb by (subst in_sync_loop.simps) auto
      from "1.IH" [OF inb] False
      consider "snd (in_sync_loop res a s (i + 1)) = [] \<and> fst (in_sync_loop res a s (i + 1))"
        | k where "i + 1 \<le> k" "k < length res"
            "idle_ms (res ! k) \<noteq> a \<or> sleep_ms (res ! k) \<noteq> s"
            "\<forall>j. i + 1 \<le> j \<and> j < k \<longrightarrow> idle_ms (res ! j) = a \<and> sleep_ms (res ! j) = s"
            "in_sync_loop res a s (i + 1) = (False, [Log_wrn_mismatch (res ! k)])"
        by auto
      then show ?thesis
      proof cases
        case 1
        then show ?thesis by (simp add: step)
      next
        case 2
        have "\<forall>j. i \<le> j \<and> j < k \<longrightarrow> idle_ms (res ! j) = a \<and> sleep_ms (res ! j) = s"
        proof (intro allI impI)
          fix j assume j: "i \<le> j \<and> j < k"
          show "idle_ms (res ! j) = a \<and> sleep_ms (res ! j) = s"
          proof (cases "j = i")
            case True
            with False show ?thesis by simp
          next
            case False
            with j have "i + 1 \<le> j \<and> j < k" by auto
            with 2(4) show ?thesis by blast
          qed
        qed
        with 2 show ?thesis
          by (intro disjI2 exI [of _ k]) (auto simp: step)
      qed
    qed
  qed
qed

lemma check_in_sync_verdict:
  "fst (check_in_sync res) =
     (\<forall>e \<in> set res. idle_ms e = idle_ms (res ! 0) \<and> sleep_ms e = sleep_ms (res ! 0))"
proof -
  define a where "a = idle_ms (res ! 0)"
  define s where "s = sleep_ms (res ! 0)"
  define P where "P j = (idle_ms (res ! j) = a \<and> sleep_ms (res ! j) = s)" for j
  have P0: "P 0" by (simp add: P_def a_def s_def)
  have loop: "fst (in_sync_loop res a s 1) = (\<forall>j. 1 \<le> j \<and> j < length res \<longrightarrow> P j)"
    unfolding P_def by (rule in_sync_loop_verdict)
  have shift: "(\<forall>j. 1 \<le> j \<and> j < length res \<longrightarrow> P j) = (\<forall>j < length res. P j)"
  proof
    assume L: "\<forall>j. 1 \<le> j \<and> j < length res \<longrightarrow> P j"
    show "\<forall>j < length res. P j"
    proof (intro allI impI)
      fix j assume "j < length res"
      show "P j"
      proof (cases "j = 0")
        case True
        with P0 show ?thesis by simp
      next
        case False
        then have "1 \<le> j" by simp
        with L \<open>j < length res\<close> show ?thesis by blast
      qed
    qed
  next
    assume "\<forall>j < length res. P j"
    then show "\<forall>j. 1 \<le> j \<and> j < length res \<longrightarrow> P j" by blast
  qed
  have short: "\<not> 1 < length res \<Longrightarrow> (\<forall>j < length res. P j)"
  proof (intro allI impI)
    fix j assume "\<not> 1 < length res" and "j < length res"
    then have "j = 0" by simp
    with P0 show "P j" by simp
  qed
  have "fst (check_in_sync res) = (\<forall>j < length res. P j)"
  proof (cases "1 < length res")
    case True
    then have "check_in_sync res = in_sync_loop res a s 1"
      by (simp add: check_in_sync_def a_def s_def)
    with loop shift show ?thesis by simp
  next
    case False
    then have "check_in_sync res = (True, [])" by (simp add: check_in_sync_def)
    with short [OF False] show ?thesis by simp
  qed
  also have "\<dots> = (\<forall>e \<in> set res. idle_ms e = a \<and> sleep_ms e = s)"
    unfolding P_def by (simp only: all_set_conv_all_nth)
  finally show ?thesis unfolding a_def s_def .
qed

lemma check_in_sync_warning:
  "fst (check_in_sync res) \<and> snd (check_in_sync res) = []
   \<or> \<not> fst (check_in_sync res) \<and>
     (\<exists>k. 0 < k \<and> k < length res
          \<and> (idle_ms (res ! k) \<noteq> idle_ms (res ! 0) \<or> sleep_ms (res ! k) \<noteq> sleep_ms (res ! 0))
          \<and> (\<forall>j < k. idle_ms (res ! j) = idle_ms (res ! 0) \<and> sleep_ms (res ! j) = sleep_ms (res ! 0))
          \<and> snd (check_in_sync res) = [Log_wrn_mismatch (res ! k)])"
proof -
  define a where "a = idle_ms (res ! 0)"
  define s where "s = sleep_ms (res ! 0)"
  define P where "P j = (idle_ms (res ! j) = a \<and> sleep_ms (res ! j) = s)" for j
  have P0: "P 0" by (simp add: P_def a_def s_def)
  have goal: "fst (check_in_sync res) \<and> snd (check_in_sync res) = []
     \<or> \<not> fst (check_in_sync res) \<and>
       (\<exists>k. 0 < k \<and> k < length res \<and> \<not> P k \<and> (\<forall>j < k. P j)
            \<and> snd (check_in_sync res) = [Log_wrn_mismatch (res ! k)])"
  proof (cases "1 < length res")
    case False
    then have "check_in_sync res = (True, [])" by (simp add: check_in_sync_def)
    then show ?thesis by simp
  next
    case True
    then have eq: "check_in_sync res = in_sync_loop res a s 1"
      by (simp add: check_in_sync_def a_def s_def)
    have "snd (in_sync_loop res a s 1) = [] \<and> fst (in_sync_loop res a s 1)
       \<or> (\<exists>k. 1 \<le> k \<and> k < length res \<and> \<not> P k
              \<and> (\<forall>j. 1 \<le> j \<and> j < k \<longrightarrow> P j)
              \<and> in_sync_loop res a s 1 = (False, [Log_wrn_mismatch (res ! k)]))"
      using in_sync_loop_warning [of res a s 1] unfolding P_def by simp
    then show ?thesis
    proof
      assume "snd (in_sync_loop res a s 1) = [] \<and> fst (in_sync_loop res a s 1)"
      then show ?thesis by (simp add: eq)
    next
      assume "\<exists>k. 1 \<le> k \<and> k < length res \<and> \<not> P k
              \<and> (\<forall>j. 1 \<le> j \<and> j < k \<longrightarrow> P j)
              \<and> in_sync_loop res a s 1 = (False, [Log_wrn_mismatch (res ! k)])"
      then obtain k where k: "1 \<le> k" "k < length res" "\<not> P k"
          "\<forall>j. 1 \<le> j \<and> j < k \<longrightarrow> P j"
          "in_sync_loop res a s 1 = (False, [Log_wrn_mismatch (res ! k)])"
        by blast
      have below: "\<forall>j < k. P j"
      proof (intro allI impI)
        fix j assume "j < k"
        show "P j"
        proof (cases "j = 0")
          case True
          with P0 show ?thesis by simp
        next
          case False
          then have "1 \<le> j" by simp
          with k(4) \<open>j < k\<close> show ?thesis by blast
        qed
      qed
      have "0 < k" using k(1) by simp
      with k(2,3,5) below have
        "\<not> fst (check_in_sync res) \<and>
           (0 < k \<and> k < length res \<and> \<not> P k \<and> (\<forall>j < k. P j)
            \<and> snd (check_in_sync res) = [Log_wrn_mismatch (res ! k)])"
        by (simp add: eq)
      then show ?thesis by blast
    qed
  qed
  show ?thesis
    using goal unfolding P_def a_def s_def by (simp only: de_Morgan_conj)
qed

text \<open>The collection after a window: the entries it held, then the accepted reports, eight at most.\<close>

lemma k_sleep_collects:
  assumes "unat (count c) \<le> MAX_PERIPHERALS" and "MAX_PERIPHERALS \<le> length (settings c)"
  shows "take (unat (count (k_sleep evs c))) (settings (k_sleep evs c)) =
           take MAX_PERIPHERALS
             (take (unat (count c)) (settings c) @ accepted_reports (request_id c) evs)"
  using assms
proof (induction evs arbitrary: c)
  case Nil
  then show ?case by simp
next
  case (Cons eh evs)
  let ?c' = "snd (activity_settings_report_listener_sync eh c)"
  have c'1: "unat (count ?c') \<le> MAX_PERIPHERALS"
    using Cons.prems(1) by (rule report_listener_sync_count)
  have c'2: "MAX_PERIPHERALS \<le> length (settings ?c')"
    using Cons.prems(2) by (simp add: report_listener_sync_keeps)
  have IH: "take (unat (count (k_sleep evs ?c'))) (settings (k_sleep evs ?c')) =
           take MAX_PERIPHERALS
             (take (unat (count ?c')) (settings ?c') @ accepted_reports (request_id c) evs)"
    using Cons.IH [OF c'1 c'2] by (simp add: report_listener_sync_keeps)
  have step: "take MAX_PERIPHERALS
                (take (unat (count ?c')) (settings ?c') @ accepted_reports (request_id c) evs) =
              take MAX_PERIPHERALS
                (take (unat (count c)) (settings c) @ accepted_reports (request_id c) (eh # evs))"
  proof (cases eh)
    case (Activity_settings_report r)
    show ?thesis
    proof (cases "rep_request_id r = request_id c")
      case False
      with Activity_settings_report show ?thesis by (simp add: report_listener_sync_eq)
    next
      case match: True
      show ?thesis
      proof (cases "unat (count c) < MAX_PERIPHERALS")
        case True
        let ?e = "\<lparr>idle_ms = rep_idle_ms r, sleep_ms = rep_sleep_ms r,
                   source = ucast (rep_source r)\<rparr>"
        have len: "unat (count c) < length (settings c)" using True Cons.prems(2) by simp
        have "take (unat (count c) + 1) ((settings c)[unat (count c) := ?e]) =
              take (unat (count c)) (settings c) @ [?e]"
          using len by (simp add: take_Suc_conv_app_nth)
        with True match Activity_settings_report show ?thesis
          by (simp add: report_listener_sync_eq unat_count_succ)
      next
        case False
        with Cons.prems(1) have full: "unat (count c) = MAX_PERIPHERALS" by simp
        then have "length (take (unat (count c)) (settings c)) = MAX_PERIPHERALS"
          using Cons.prems(2) by simp
        have "\<And>ys. take MAX_PERIPHERALS (take (unat (count c)) (settings c) @ ys) =
                        take (unat (count c)) (settings c)"
          using full Cons.prems(2) by simp
        with False match Activity_settings_report show ?thesis
          by (simp add: report_listener_sync_eq)
      qed
    qed
  qed (simp_all add: report_listener_sync_other)
  show ?case using IH step by simp
qed

text \<open>The bounded get-all on the central of a split, in one equation.\<close>

lemma get_all_before_wait_eq:
  "get_all_before_wait n =
     ([\<lparr>idle_ms = act_idle_ms (activity n), sleep_ms = act_sleep_ms (activity n), source = 0\<rparr>],
      n\<lparr>settings_collection :=
          (settings_collection n)\<lparr>count := 0,
                                   request_id := request_id (settings_collection n) + 1\<rparr>\<rparr>,
      [Raise (Activity_settings_request
                \<lparr>req_request_id = request_id (settings_collection n) + 1\<rparr>)])"
  by (simp add: get_all_before_wait_def zmk_activity_get_idle_ms_def zmk_activity_get_sleep_ms_def)

lemma handle_get_all_sync_central:
  assumes "CONFIG_ZMK_SPLIT cfg" and "CONFIG_ZMK_SPLIT_ROLE_CENTRAL cfg"
  shows "handle_get_all_activity_settings_sync cfg arrivals n =
     (0,
      Response_get_all_activity_settings
        \<lparr>all_settings =
           copy_collected
             (k_sleep arrivals
                ((settings_collection n)\<lparr>count := 0,
                    request_id := request_id (settings_collection n) + 1\<rparr>)) 0
             [\<lparr>idle_ms = act_idle_ms (activity n), sleep_ms = act_sleep_ms (activity n),
               source = 0\<rparr>],
         in_sync = fst (check_in_sync
           (copy_collected
             (k_sleep arrivals
                ((settings_collection n)\<lparr>count := 0,
                    request_id := request_id (settings_collection n) + 1\<rparr>)) 0
             [\<lparr>idle_ms = act_idle_ms (activity n), sleep_ms = act_sleep_ms (activity n),
               source = 0\<rparr>]))\<rparr>,
      n\<lparr>settings_collection :=
          k_sleep arrivals
            ((settings_collection n)\<lparr>count := 0,
                request_id := request_id (settings_collection n) + 1\<rparr>)\<rparr>,
      Raise (Activity_settings_request
               \<lparr>req_request_id = request_id (settings_collection n) + 1\<rparr>) #
      snd (check_in_sync
           (copy_collected
             (k_sleep arrivals
                ((settings_collection n)\<lparr>count := 0,
                    request_id := request_id (settings_collection n) + 1\<rparr>)) 0
             [\<lparr>idle_ms = act_idle_ms (activity n), sleep_ms = act_sleep_ms (activity n),
               source = 0\<rparr>])))"
  using assms
  by (simp add: handle_get_all_activity_settings_sync_def get_all_before_wait_eq Let_def
      split_beta)

lemma handle_get_all_sync_other:
  assumes "\<not> (CONFIG_ZMK_SPLIT cfg \<and> CONFIG_ZMK_SPLIT_ROLE_CENTRAL cfg)"
  shows "handle_get_all_activity_settings_sync cfg arrivals n =
     (0,
      Response_get_all_activity_settings
        \<lparr>all_settings = [\<lparr>idle_ms = act_idle_ms (activity n),
                          sleep_ms = act_sleep_ms (activity n), source = 0\<rparr>],
         in_sync = True\<rparr>, n, [])"
  using assms
  by (auto simp: handle_get_all_activity_settings_sync_def zmk_activity_get_idle_ms_def
      zmk_activity_get_sleep_ms_def)

lemma get_all_sync_collected:
  assumes "MAX_PERIPHERALS \<le> length (settings c)" and "count c = 0"
  shows "copy_collected (k_sleep arrivals c) 0 res =
           res @ take MAX_PERIPHERALS (accepted_reports (request_id c) arrivals)"
proof -
  let ?c' = "k_sleep arrivals c"
  have cnt0: "unat (count c) \<le> MAX_PERIPHERALS" using assms(2) by simp
  have cnt: "unat (count ?c') \<le> MAX_PERIPHERALS" using cnt0 by (rule k_sleep_count)
  have len: "MAX_PERIPHERALS \<le> length (settings ?c')" using assms(1) by (simp add: k_sleep_keeps)
  have "copy_collected ?c' 0 res =
          res @ take (min (unat (count ?c')) MAX_PERIPHERALS - 0) (drop 0 (settings ?c'))"
    using len by (rule copy_collected_eq)
  also have "\<dots> = res @ take (unat (count ?c')) (settings ?c')"
    using cnt by (simp add: min_absorb1)
  also have "take (unat (count ?c')) (settings ?c') =
               take MAX_PERIPHERALS
                 (take (unat (count c)) (settings c) @ accepted_reports (request_id c) arrivals)"
    using cnt0 assms(1) by (rule k_sleep_collects)
  also have "\<dots> = take MAX_PERIPHERALS (accepted_reports (request_id c) arrivals)"
    using assms(2) by simp
  finally show ?thesis .
qed

lemma changed_listener_collection:
  "settings_collection (snd (activity_settings_changed_listener b eh n)) = settings_collection n"
  by (cases eh)
     (simp_all add: activity_settings_changed_listener_def set_idle_simp set_sleep_simp)

lemma get_all_sync_node_collection:
  "settings_collection (node_of (handle_get_all_activity_settings_sync cfg arrivals n)) =
     (if CONFIG_ZMK_SPLIT cfg \<and> CONFIG_ZMK_SPLIT_ROLE_CENTRAL cfg
      then k_sleep arrivals
             ((settings_collection n)\<lparr>count := 0,
                 request_id := request_id (settings_collection n) + 1\<rparr>)
      else settings_collection n)"
proof (cases "CONFIG_ZMK_SPLIT cfg \<and> CONFIG_ZMK_SPLIT_ROLE_CENTRAL cfg")
  case True
  then show ?thesis by (simp add: handle_get_all_sync_central node_of_def)
next
  case False
  then show ?thesis by (auto simp: handle_get_all_sync_other [OF False] node_of_def)
qed

lemma reachable_collection_inv:
  assumes "reachable cfg b n"
  shows "unat (count (settings_collection n)) \<le> MAX_PERIPHERALS
       \<and> length (settings (settings_collection n)) = MAX_PERIPHERALS + 1"
  using assms
proof (induction rule: reachable.induct)
  case (boot n)
  then show ?case by (simp add: settings_collection_init_def)
next
  case (report_delivered n eh)
  then show ?case by (simp add: report_listener_sync_count report_listener_sync_keeps)
next
  case (change_delivered n eh)
  then show ?case by (simp add: changed_listener_collection)
next
  case (set_handled n v)
  then show ?case by (simp add: handle_set_eq node_of_def)
next
  case (get_all_handled n arrivals)
  show ?case
  proof (cases "CONFIG_ZMK_SPLIT cfg \<and> CONFIG_ZMK_SPLIT_ROLE_CENTRAL cfg")
    case True
    have "unat (count ((settings_collection n)\<lparr>count := 0,
             request_id := request_id (settings_collection n) + 1\<rparr>)) \<le> MAX_PERIPHERALS"
      by simp
    then have "unat (count (k_sleep arrivals ((settings_collection n)\<lparr>count := 0,
             request_id := request_id (settings_collection n) + 1\<rparr>))) \<le> MAX_PERIPHERALS"
      by (rule k_sleep_count)
    with True get_all_handled.IH show ?thesis
      by (simp add: get_all_sync_node_collection k_sleep_keeps)
  next
    case False
    with get_all_handled.IH show ?thesis by (auto simp: get_all_sync_node_collection)
  qed
qed

lemma get_all_sync_response:
  "\<exists>g. response_of (handle_get_all_activity_settings_sync cfg arrivals n) =
          Response_get_all_activity_settings g
      \<and> all_settings g \<noteq> []
      \<and> length (all_settings g) \<le> MAX_PERIPHERALS + 1
      \<and> (arrivals = [] \<longrightarrow> length (all_settings g) = 1)
      \<and> in_sync g = fst (check_in_sync (all_settings g))
      \<and> warned (effects_of (handle_get_all_activity_settings_sync cfg arrivals n)) =
          warned (snd (check_in_sync (all_settings g)))"
proof (cases "CONFIG_ZMK_SPLIT cfg \<and> CONFIG_ZMK_SPLIT_ROLE_CENTRAL cfg")
  case True
  define c where "c = k_sleep arrivals ((settings_collection n)\<lparr>count := 0,
             request_id := request_id (settings_collection n) + 1\<rparr>)"
  define own where "own = \<lparr>idle_ms = act_idle_ms (activity n),
      sleep_ms = act_sleep_ms (activity n), source = 0\<rparr>"
  define res where "res = copy_collected c 0 [own]"
  have len: "length res = 1 + min (unat (count c)) MAX_PERIPHERALS"
    by (simp add: res_def copy_collected_length)
  have ne: "res \<noteq> []" using len by auto
  have le: "length res \<le> MAX_PERIPHERALS + 1" using len by simp
  have none: "arrivals = [] \<longrightarrow> length res = 1" using len by (simp add: c_def)
  have H: "handle_get_all_activity_settings_sync cfg arrivals n =
      (0, Response_get_all_activity_settings \<lparr>all_settings = res, in_sync = fst (check_in_sync res)\<rparr>,
       n\<lparr>settings_collection := c\<rparr>,
       Raise (Activity_settings_request
               \<lparr>req_request_id = request_id (settings_collection n) + 1\<rparr>) #
       snd (check_in_sync res))"
    using True by (simp add: handle_get_all_sync_central res_def c_def own_def)
  show ?thesis
    using ne le none
    by (intro exI [of _ "\<lparr>all_settings = res, in_sync = fst (check_in_sync res)\<rparr>"])
       (simp add: H response_of_def effects_of_def)
next
  case False
  have "check_in_sync [\<lparr>idle_ms = act_idle_ms (activity n),
            sleep_ms = act_sleep_ms (activity n), source = 0\<rparr>] = (True, [])"
    by (simp add: check_in_sync_def)
  then show ?thesis
    by (simp add: handle_get_all_sync_other [OF False] response_of_def effects_of_def
        MAX_PERIPHERALS_def)
qed

text \<open>The first revision of the set handler in one equation: the raise reads no switch.\<close>

lemma handle_set_part_001_eq:
  "(handle_set_activity_settings_part_001 b v n
      :: int \<times> 'g zmk_settings_Response \<times> node \<times> effect list) =
     (if store_accepts b v then 0 else - 1,
      Response_set_activity_settings (store_accepts b v),
      n\<lparr>activity :=
          \<lparr>act_idle_ms = (if idle_ok b (idle_ms v) then idle_ms v
                          else act_idle_ms (activity n)),
           act_sleep_ms = (if sleep_ok b (sleep_ms v) then sleep_ms v
                           else act_sleep_ms (activity n))\<rparr>\<rparr>,
      (if idle_ok b (idle_ms v) then [] else [Log_err_idle (idle_ms v)]) @
      (if sleep_ok b (sleep_ms v) then [] else [Log_err_sleep (sleep_ms v)]) @
      (if store_accepts b v
       then [Raise (Activity_settings_changed
                \<lparr>chg_idle_ms = idle_ms v, chg_sleep_ms = sleep_ms v,
                 chg_source = ZMK_RELAY_EVENT_SOURCE_SELF\<rparr>)]
       else []))"
  by (simp add: handle_set_activity_settings_part_001_def set_idle_simp set_sleep_simp
      store_accepts_def raise_zmk_activity_settings_changed_def
      activity_settings_changed_listener_def Let_def)

text \<open>The count after a window, and what the comparison adds to the trace.\<close>

lemma k_sleep_count_eq:
  assumes "unat (count c) \<le> MAX_PERIPHERALS" and "MAX_PERIPHERALS \<le> length (settings c)"
  shows "unat (count (k_sleep evs c)) =
           min MAX_PERIPHERALS (unat (count c) + length (accepted_reports (request_id c) evs))"
proof -
  let ?c' = "k_sleep evs c"
  have cnt: "unat (count ?c') \<le> MAX_PERIPHERALS" using assms(1) by (rule k_sleep_count)
  have len: "MAX_PERIPHERALS \<le> length (settings ?c')" using assms(2) by (simp add: k_sleep_keeps)
  have "length (take (unat (count ?c')) (settings ?c')) =
        length (take MAX_PERIPHERALS
                 (take (unat (count c)) (settings c) @ accepted_reports (request_id c) evs))"
    using k_sleep_collects [OF assms, of evs] by simp
  moreover have "length (take (unat (count ?c')) (settings ?c')) = unat (count ?c')"
    using cnt len by simp
  moreover have "length (take (unat (count c)) (settings c)) = unat (count c)"
    using assms by simp
  ultimately show ?thesis by simp
qed

lemma check_in_sync_raises_nothing: "raised (snd (check_in_sync res)) = []"
proof -
  from check_in_sync_warning [of res]
  have "snd (check_in_sync res) = [] \<or> (\<exists>e. snd (check_in_sync res) = [Log_wrn_mismatch e])"
    by blast
  then show ?thesis by auto
qed

lemma copy_collected_empty: "count c = 0 \<Longrightarrow> copy_collected c 0 res = res"
  by (subst copy_collected.simps) simp

section \<open>C1: applying a relayed change\<close>

text \<open>
  C1, as amended. For every change event delivered to the apply listener: when the
  event's source is the self marker the listener calls no setter and the node is
  unchanged; for every other source, the node's own identity included (the listener
  never compares the source with an identity), it calls both setters with the event's
  values and drops their results, so each field the store accepts is replaced by the
  event's value, whatever the old value was. The listener always bubbles.
\<close>

theorem apply_relayed_unless_self_marker:
  "activity_settings_changed_listener b (Activity_settings_changed ev) n =
     (ZMK_EV_EVENT_BUBBLE,
      if chg_source ev = ZMK_RELAY_EVENT_SOURCE_SELF then n
      else n\<lparr>activity :=
               \<lparr>act_idle_ms = (if idle_ok b (chg_idle_ms ev) then chg_idle_ms ev
                               else act_idle_ms (activity n)),
                act_sleep_ms = (if sleep_ok b (chg_sleep_ms ev) then chg_sleep_ms ev
                                else act_sleep_ms (activity n))\<rparr>\<rparr>)"
  by (simp add: activity_settings_changed_listener_def set_idle_simp set_sleep_simp)

text \<open>
  C1 as written fails: on the node whose identity is 1, an event stamped with source 1
  (its own change, relayed back) is applied to the store.
\<close>

theorem apply_relayed_own_identity_counterexample:
  "\<not> (chg_source \<lparr>chg_idle_ms = 5000, chg_sleep_ms = 60000, chg_source = 1\<rparr>
          = ZMK_RELAY_EVENT_SOURCE_SELF
       \<or> chg_source \<lparr>chg_idle_ms = 5000, chg_sleep_ms = 60000, chg_source = 1\<rparr> = (1 :: u8)
      \<longrightarrow> activity (snd (activity_settings_changed_listener accept_all
            (Activity_settings_changed
               \<lparr>chg_idle_ms = 5000, chg_sleep_ms = 60000, chg_source = 1\<rparr>) node0))
          = activity node0)"
  by (simp add: activity_settings_changed_listener_def set_idle_simp set_sleep_simp
      accept_all_def node0_def ZMK_RELAY_EVENT_SOURCE_SELF_def)

section \<open>C2: set and propagate\<close>

text \<open>
  C2, as amended. For every value \<open>v\<close>: the set handler of the first revision
  (\<^verbatim>\<open>src/unnamed/part_001\<close>) raises a change event carrying \<open>v\<close> with the self marker as
  source if and only if the store accepted both fields; the set handler of
  \<^verbatim>\<open>src/studio/settings_rpc_handler.c\<close> raises it if and only if the store accepted and the
  relay is compiled in (\<^verbatim>\<open>CONFIG_ZMK_SPLIT_RELAY_EVENT\<close>), and with the relay compiled in the
  two handlers are the same function. Neither raises any other event. In both, the
  result is 0 and the response reports success exactly when the store accepted, and on
  success the store holds \<open>v\<close> when the handler returns.
\<close>

theorem set_and_propagate_raises_iff_accepted:
  fixes R1 R :: "int \<times> 'g zmk_settings_Response \<times> node \<times> effect list"
  assumes "R1 = handle_set_activity_settings_part_001 b v n"
      and "R = handle_set_activity_settings cfg b v n"
  shows "raised (effects_of R1) =
           (if store_accepts b v
            then [Activity_settings_changed
                    \<lparr>chg_idle_ms = idle_ms v, chg_sleep_ms = sleep_ms v,
                     chg_source = ZMK_RELAY_EVENT_SOURCE_SELF\<rparr>]
            else [])
       \<and> raised (effects_of R) =
           (if store_accepts b v \<and> CONFIG_ZMK_SPLIT_RELAY_EVENT cfg
            then [Activity_settings_changed
                    \<lparr>chg_idle_ms = idle_ms v, chg_sleep_ms = sleep_ms v,
                     chg_source = ZMK_RELAY_EVENT_SOURCE_SELF\<rparr>]
            else [])
       \<and> (CONFIG_ZMK_SPLIT_RELAY_EVENT cfg \<longrightarrow> R = R1)
       \<and> (result_of R1 = 0) = store_accepts b v
       \<and> (result_of R = 0) = store_accepts b v
       \<and> response_of R1 = Response_set_activity_settings (store_accepts b v)
       \<and> response_of R = Response_set_activity_settings (store_accepts b v)
       \<and> (store_accepts b v \<longrightarrow>
            activity (node_of R1) = \<lparr>act_idle_ms = idle_ms v, act_sleep_ms = sleep_ms v\<rparr>
          \<and> activity (node_of R) = \<lparr>act_idle_ms = idle_ms v, act_sleep_ms = sleep_ms v\<rparr>)"
  unfolding assms handle_set_eq handle_set_part_001_eq
  by (simp add: effects_of_def result_of_def response_of_def node_of_def raised_append
      store_accepts_def)

theorem set_and_propagate_witness:
  "store_accepts accept_all \<lparr>idle_ms = 5000, sleep_ms = 60000, source = 0\<rparr>
   \<and> CONFIG_ZMK_SPLIT_RELAY_EVENT split_central
   \<and> activity (node_of (handle_set_activity_settings split_central accept_all
        \<lparr>idle_ms = 5000, sleep_ms = 60000, source = 0\<rparr> node0
        :: int \<times> unit zmk_settings_Response \<times> node \<times> effect list))
      = \<lparr>act_idle_ms = 5000, act_sleep_ms = 60000\<rparr>
   \<and> raised (effects_of (handle_set_activity_settings split_central accept_all
        \<lparr>idle_ms = 5000, sleep_ms = 60000, source = 0\<rparr> node0
        :: int \<times> unit zmk_settings_Response \<times> node \<times> effect list))
      = [Activity_settings_changed
           \<lparr>chg_idle_ms = 5000, chg_sleep_ms = 60000, chg_source = 0xFF\<rparr>]
   \<and> raised (effects_of (handle_set_activity_settings_part_001 accept_all
        \<lparr>idle_ms = 5000, sleep_ms = 60000, source = 0\<rparr> node0
        :: int \<times> unit zmk_settings_Response \<times> node \<times> effect list))
      = [Activity_settings_changed
           \<lparr>chg_idle_ms = 5000, chg_sleep_ms = 60000, chg_source = 0xFF\<rparr>]
   \<and> (handle_set_activity_settings split_central accept_all
        \<lparr>idle_ms = 5000, sleep_ms = 60000, source = 0\<rparr> node0
        :: int \<times> unit zmk_settings_Response \<times> node \<times> effect list)
      = handle_set_activity_settings_part_001 accept_all
        \<lparr>idle_ms = 5000, sleep_ms = 60000, source = 0\<rparr> node0"
  using set_and_propagate_raises_iff_accepted
    [where b = accept_all and v = "\<lparr>idle_ms = 5000, sleep_ms = 60000, source = 0\<rparr>"
       and n = node0 and cfg = split_central and ?'g = unit, OF refl refl]
  by (simp add: store_accepts_def accept_all_def split_central_def ZMK_RELAY_EVENT_SOURCE_SELF_def)

text \<open>
  C2 as written fails on the handler of \<^verbatim>\<open>src/studio/settings_rpc_handler.c\<close>: in a build
  without the relay the store accepts the value and that handler raises no change
  event. (The handler of the first revision raises it in every build.)
\<close>

theorem set_and_propagate_no_relay_counterexample:
  "store_accepts accept_all \<lparr>idle_ms = 5000, sleep_ms = 60000, source = 0\<rparr>
   \<and> raised (effects_of (handle_set_activity_settings standalone accept_all
        \<lparr>idle_ms = 5000, sleep_ms = 60000, source = 0\<rparr> node0
        :: int \<times> unit zmk_settings_Response \<times> node \<times> effect list)) = []"
  by (simp add: handle_set_eq effects_of_def store_accepts_def accept_all_def standalone_def)

section \<open>C3: stale reports and the restart of a collection\<close>

text \<open>
  C3, as amended. In the bounded get-all, a report whose request id differs from the id
  of the running collection leaves the collection exactly as it was. On the central of
  a split (\<^verbatim>\<open>CONFIG_ZMK_SPLIT\<close> and \<^verbatim>\<open>CONFIG_ZMK_SPLIT_ROLE_CENTRAL\<close>) every get-all first
  sets the count back to 0 and increments the request id (a byte, so it wraps), holds
  exactly one entry, the node's own stored value with source 0 at index 0, and raises
  the request under the new id; the node it leaves behind carries the new id and the
  collection that the reports of the window built from the reset one, and its answer is
  the own entry followed by the reports of the window that carry the new id, eight at
  most. In any other build the handler leaves the node as it was, request id and
  collection included, raises nothing and answers with its own entry alone.
\<close>

theorem stale_report_dropped_and_central_get_all_restarts:
  assumes "H = handle_get_all_activity_settings_sync cfg arrivals n"
      and "own = \<lparr>idle_ms = act_idle_ms (activity n), sleep_ms = act_sleep_ms (activity n),
                   source = 0\<rparr>"
      and "new_id = request_id (settings_collection n) + 1"
  shows "(rep_request_id r \<noteq> request_id c \<longrightarrow>
            activity_settings_report_listener_sync (Activity_settings_report r) c =
              (ZMK_EV_EVENT_BUBBLE, c))
       \<and> get_all_before_wait n =
           ([own],
            n\<lparr>settings_collection := (settings_collection n)\<lparr>count := 0, request_id := new_id\<rparr>\<rparr>,
            [Raise (Activity_settings_request \<lparr>req_request_id = new_id\<rparr>)])
       \<and> node_of H =
           (if CONFIG_ZMK_SPLIT cfg \<and> CONFIG_ZMK_SPLIT_ROLE_CENTRAL cfg
            then n\<lparr>settings_collection :=
                     k_sleep arrivals
                       ((settings_collection n)\<lparr>count := 0, request_id := new_id\<rparr>)\<rparr>
            else n)
       \<and> request_id (settings_collection (node_of H)) =
           (if CONFIG_ZMK_SPLIT cfg \<and> CONFIG_ZMK_SPLIT_ROLE_CENTRAL cfg
            then new_id else request_id (settings_collection n))
       \<and> raised (effects_of H) =
           (if CONFIG_ZMK_SPLIT cfg \<and> CONFIG_ZMK_SPLIT_ROLE_CENTRAL cfg
            then [Activity_settings_request \<lparr>req_request_id = new_id\<rparr>] else [])
       \<and> (arrivals = [] \<longrightarrow>
            response_of H =
              Response_get_all_activity_settings \<lparr>all_settings = [own], in_sync = True\<rparr>
          \<and> count (settings_collection (node_of H)) =
              (if CONFIG_ZMK_SPLIT cfg \<and> CONFIG_ZMK_SPLIT_ROLE_CENTRAL cfg
               then 0 else count (settings_collection n)))
       \<and> (MAX_PERIPHERALS \<le> length (settings (settings_collection n)) \<longrightarrow>
            (\<exists>sync. response_of H =
               Response_get_all_activity_settings
                 \<lparr>all_settings =
                    own # (if CONFIG_ZMK_SPLIT cfg \<and> CONFIG_ZMK_SPLIT_ROLE_CENTRAL cfg
                           then take MAX_PERIPHERALS (accepted_reports new_id arrivals)
                           else []),
                  in_sync = sync\<rparr>)
          \<and> unat (count (settings_collection (node_of H))) =
              (if CONFIG_ZMK_SPLIT cfg \<and> CONFIG_ZMK_SPLIT_ROLE_CENTRAL cfg
               then min MAX_PERIPHERALS (length (accepted_reports new_id arrivals))
               else unat (count (settings_collection n))))"
proof -
  let ?reset = "(settings_collection n)\<lparr>count := 0, request_id := new_id\<rparr>"
  have stale: "rep_request_id r \<noteq> request_id c \<longrightarrow>
      activity_settings_report_listener_sync (Activity_settings_report r) c =
        (ZMK_EV_EVENT_BUBBLE, c)"
    by (simp add: report_listener_sync_eq)
  have before: "get_all_before_wait n =
      ([own], n\<lparr>settings_collection := ?reset\<rparr>,
       [Raise (Activity_settings_request \<lparr>req_request_id = new_id\<rparr>)])"
    unfolding assms(2,3) by (rule get_all_before_wait_eq)
  show ?thesis
  proof (cases "CONFIG_ZMK_SPLIT cfg \<and> CONFIG_ZMK_SPLIT_ROLE_CENTRAL cfg")
    case False
    have H: "H = (0, Response_get_all_activity_settings \<lparr>all_settings = [own], in_sync = True\<rparr>,
                  n, [])"
      unfolding assms(1,2) by (rule handle_get_all_sync_other [OF False])
    have rest: "node_of H = n" "raised (effects_of H) = []"
      "response_of H = Response_get_all_activity_settings \<lparr>all_settings = [own], in_sync = True\<rparr>"
      by (simp_all add: H node_of_def effects_of_def response_of_def)
    have nc: "(CONFIG_ZMK_SPLIT cfg \<and> CONFIG_ZMK_SPLIT_ROLE_CENTRAL cfg) = False"
      using False by simp
    have f4: "request_id (settings_collection (node_of H)) = request_id (settings_collection n)"
      by (simp add: rest)
    have f6: "arrivals = [] \<longrightarrow>
            response_of H =
              Response_get_all_activity_settings \<lparr>all_settings = [own], in_sync = True\<rparr>
          \<and> count (settings_collection (node_of H)) = count (settings_collection n)"
      by (simp add: rest)
    have "\<exists>sync. response_of H =
               Response_get_all_activity_settings \<lparr>all_settings = [own], in_sync = sync\<rparr>"
      unfolding rest(3) by (rule exI [of _ True]) (rule refl)
    then have f7: "MAX_PERIPHERALS \<le> length (settings (settings_collection n)) \<longrightarrow>
            (\<exists>sync. response_of H =
               Response_get_all_activity_settings \<lparr>all_settings = [own], in_sync = sync\<rparr>)
          \<and> unat (count (settings_collection (node_of H))) =
              unat (count (settings_collection n))"
      by (simp add: rest(1))
    show ?thesis
      unfolding nc if_False
      using stale before rest(1) f4 rest(2) f6 f7 by (intro conjI)
  next
    case True
    let ?coll = "k_sleep arrivals ?reset"
    let ?res = "copy_collected ?coll 0 [own]"
    have H: "H = (0,
        Response_get_all_activity_settings
          \<lparr>all_settings = ?res, in_sync = fst (check_in_sync ?res)\<rparr>,
        n\<lparr>settings_collection := ?coll\<rparr>,
        Raise (Activity_settings_request \<lparr>req_request_id = new_id\<rparr>) #
        snd (check_in_sync ?res))"
      using True unfolding assms by (simp add: handle_get_all_sync_central)
    have nd: "node_of H = n\<lparr>settings_collection := ?coll\<rparr>" by (simp add: H node_of_def)
    have rid: "request_id (settings_collection (node_of H)) = new_id"
      by (simp add: nd k_sleep_keeps)
    have rs: "raised (effects_of H) = [Activity_settings_request \<lparr>req_request_id = new_id\<rparr>]"
      by (simp add: H effects_of_def check_in_sync_raises_nothing)
    have none: "arrivals = [] \<longrightarrow>
            response_of H =
              Response_get_all_activity_settings \<lparr>all_settings = [own], in_sync = True\<rparr>
          \<and> count (settings_collection (node_of H)) = 0"
    proof
      assume e: "arrivals = []"
      then have "?res = [own]" by (simp add: copy_collected_empty)
      moreover have "check_in_sync [own] = (True, [])" by (simp add: check_in_sync_def)
      ultimately show "response_of H =
              Response_get_all_activity_settings \<lparr>all_settings = [own], in_sync = True\<rparr>
          \<and> count (settings_collection (node_of H)) = 0"
        using e by (simp add: H response_of_def node_of_def)
    qed
    have some: "MAX_PERIPHERALS \<le> length (settings (settings_collection n)) \<longrightarrow>
            (\<exists>sync. response_of H =
               Response_get_all_activity_settings
                 \<lparr>all_settings = own # take MAX_PERIPHERALS (accepted_reports new_id arrivals),
                  in_sync = sync\<rparr>)
          \<and> unat (count (settings_collection (node_of H))) =
              min MAX_PERIPHERALS (length (accepted_reports new_id arrivals))"
    proof
      assume len: "MAX_PERIPHERALS \<le> length (settings (settings_collection n))"
      have "?res = [own] @ take MAX_PERIPHERALS (accepted_reports (request_id ?reset) arrivals)"
        using len by (intro get_all_sync_collected) simp_all
      then have res: "?res = own # take MAX_PERIPHERALS (accepted_reports new_id arrivals)"
        by simp
      have "unat (count ?coll) =
              min MAX_PERIPHERALS (unat (count ?reset) + length (accepted_reports (request_id ?reset) arrivals))"
        using len by (intro k_sleep_count_eq) simp_all
      then have cnt: "unat (count (settings_collection (node_of H))) =
              min MAX_PERIPHERALS (length (accepted_reports new_id arrivals))"
        by (simp add: nd)
      have "response_of H =
               Response_get_all_activity_settings
                 \<lparr>all_settings = own # take MAX_PERIPHERALS (accepted_reports new_id arrivals),
                  in_sync = fst (check_in_sync ?res)\<rparr>"
        using res by (simp add: H response_of_def)
      then have "\<exists>sync. response_of H =
               Response_get_all_activity_settings
                 \<lparr>all_settings = own # take MAX_PERIPHERALS (accepted_reports new_id arrivals),
                  in_sync = sync\<rparr>"
        by blast
      with cnt show "(\<exists>sync. response_of H =
               Response_get_all_activity_settings
                 \<lparr>all_settings = own # take MAX_PERIPHERALS (accepted_reports new_id arrivals),
                  in_sync = sync\<rparr>)
          \<and> unat (count (settings_collection (node_of H))) =
              min MAX_PERIPHERALS (length (accepted_reports new_id arrivals))"
        by (rule conjI [rotated])
    qed
    have c: "(CONFIG_ZMK_SPLIT cfg \<and> CONFIG_ZMK_SPLIT_ROLE_CENTRAL cfg) = True"
      using True by simp
    show ?thesis
      unfolding c if_True
      using stale before nd rid rs none some by (intro conjI)
  qed
qed

text \<open>
  A second get-all on the central, run on the node the first one left: the report that
  answers the first request arrives in the second window and is not in the answer.
\<close>

theorem stale_report_witness:
  "rep_request_id report_late \<noteq> request_id (settings_collection_init\<lparr>request_id := 1\<rparr>)
   \<and> activity_settings_report_listener_sync (Activity_settings_report report_late)
       (settings_collection_init\<lparr>request_id := 1\<rparr>) =
       (ZMK_EV_EVENT_BUBBLE, settings_collection_init\<lparr>request_id := 1\<rparr>)
   \<and> request_id (settings_collection
        (node_of (handle_get_all_activity_settings_sync split_central
           [Activity_settings_report report_A] node0))) = 1
   \<and> unat (count (settings_collection
        (node_of (handle_get_all_activity_settings_sync split_central
           [Activity_settings_report report_A] node0)))) = 1
   \<and> (\<exists>sync. response_of (handle_get_all_activity_settings_sync split_central
          [Activity_settings_report report_late, Activity_settings_report report_A] node0) =
        Response_get_all_activity_settings
          \<lparr>all_settings = [\<lparr>idle_ms = 30000, sleep_ms = 900000, source = 0\<rparr>,
                           \<lparr>idle_ms = 30000, sleep_ms = 900000, source = 1\<rparr>],
           in_sync = sync\<rparr>)
   \<and> request_id (settings_collection
        (node_of (handle_get_all_activity_settings_sync split_central
           [Activity_settings_report report_B]
           (node_of (handle_get_all_activity_settings_sync split_central
              [Activity_settings_report report_A] node0))))) = 2
   \<and> unat (count (settings_collection
        (node_of (handle_get_all_activity_settings_sync split_central
           [Activity_settings_report report_B]
           (node_of (handle_get_all_activity_settings_sync split_central
              [Activity_settings_report report_A] node0)))))) = 0
   \<and> (\<exists>sync. response_of (handle_get_all_activity_settings_sync split_central
          [Activity_settings_report report_B]
          (node_of (handle_get_all_activity_settings_sync split_central
              [Activity_settings_report report_A] node0))) =
        Response_get_all_activity_settings
          \<lparr>all_settings = [\<lparr>idle_ms = 30000, sleep_ms = 900000, source = 0\<rparr>],
           in_sync = sync\<rparr>)"
proof -
  let ?n1 = "node_of (handle_get_all_activity_settings_sync split_central
           [Activity_settings_report report_A] node0)"
  have central: "CONFIG_ZMK_SPLIT split_central \<and> CONFIG_ZMK_SPLIT_ROLE_CENTRAL split_central"
    by (simp add: split_central_def)
  have len0: "MAX_PERIPHERALS \<le> length (settings (settings_collection node0))"
    by (simp add: node0_def settings_collection_init_def)
  note first = stale_report_dropped_and_central_get_all_restarts
      [where cfg = split_central and arrivals = "[Activity_settings_report report_A]"
         and n = node0 and r = report_late
         and c = "settings_collection_init\<lparr>request_id := 1\<rparr>", OF refl refl refl]
  note late = stale_report_dropped_and_central_get_all_restarts
      [where cfg = split_central
         and arrivals = "[Activity_settings_report report_late, Activity_settings_report report_A]"
         and n = node0, OF refl refl refl]
  have n1: "?n1 = node0\<lparr>settings_collection :=
        k_sleep [Activity_settings_report report_A]
          ((settings_collection node0)\<lparr>count := 0,
             request_id := request_id (settings_collection node0) + 1\<rparr>)\<rparr>"
    using first [THEN conjunct2, THEN conjunct2, THEN conjunct1] central by simp
  have id1: "request_id (settings_collection ?n1) = 1"
    using first [THEN conjunct2, THEN conjunct2, THEN conjunct2, THEN conjunct1] central
    by (simp add: node0_def settings_collection_init_def)
  have len1: "MAX_PERIPHERALS \<le> length (settings (settings_collection ?n1))"
    using len0 by (simp add: n1 report_listener_sync_keeps)
  have act1: "activity ?n1 = activity node0" by (simp add: n1)
  note second = stale_report_dropped_and_central_get_all_restarts
      [where cfg = split_central and arrivals = "[Activity_settings_report report_B]"
         and n = "?n1", OF refl refl refl]
  have s1: "rep_request_id report_late \<noteq> request_id (settings_collection_init\<lparr>request_id := 1\<rparr>)"
    by (simp add: report_late_def settings_collection_init_def)
  have s2: "activity_settings_report_listener_sync (Activity_settings_report report_late)
       (settings_collection_init\<lparr>request_id := 1\<rparr>) =
       (ZMK_EV_EVENT_BUBBLE, settings_collection_init\<lparr>request_id := 1\<rparr>)"
    using first [THEN conjunct1] s1 by (rule mp)
  have tail1: "(\<exists>sync. response_of (handle_get_all_activity_settings_sync split_central
          [Activity_settings_report report_A] node0) =
        Response_get_all_activity_settings
          \<lparr>all_settings = \<lparr>idle_ms = act_idle_ms (activity node0),
                             sleep_ms = act_sleep_ms (activity node0), source = 0\<rparr> #
             (if CONFIG_ZMK_SPLIT split_central \<and> CONFIG_ZMK_SPLIT_ROLE_CENTRAL split_central
              then take MAX_PERIPHERALS
                     (accepted_reports (request_id (settings_collection node0) + 1)
                        [Activity_settings_report report_A])
              else []),
           in_sync = sync\<rparr>)
     \<and> unat (count (settings_collection ?n1)) =
         (if CONFIG_ZMK_SPLIT split_central \<and> CONFIG_ZMK_SPLIT_ROLE_CENTRAL split_central
          then min MAX_PERIPHERALS
                 (length (accepted_reports (request_id (settings_collection node0) + 1)
                    [Activity_settings_report report_A]))
          else unat (count (settings_collection node0)))"
    using first [THEN conjunct2, THEN conjunct2, THEN conjunct2, THEN conjunct2,
                 THEN conjunct2, THEN conjunct2] len0
    by (rule mp)
  have cnt1: "unat (count (settings_collection ?n1)) = 1"
    using tail1 [THEN conjunct2] central
    by (simp add: node0_def settings_collection_init_def report_A_def MAX_PERIPHERALS_def)
  have tailL: "\<exists>sync. response_of (handle_get_all_activity_settings_sync split_central
          [Activity_settings_report report_late, Activity_settings_report report_A] node0) =
        Response_get_all_activity_settings
          \<lparr>all_settings = [\<lparr>idle_ms = 30000, sleep_ms = 900000, source = 0\<rparr>,
                           \<lparr>idle_ms = 30000, sleep_ms = 900000, source = 1\<rparr>],
           in_sync = sync\<rparr>"
    using late [THEN conjunct2, THEN conjunct2, THEN conjunct2, THEN conjunct2,
                 THEN conjunct2, THEN conjunct2, THEN mp, OF len0, THEN conjunct1] central
    by (simp add: node0_def settings_collection_init_def report_A_def report_late_def
        MAX_PERIPHERALS_def)
  have id2: "request_id (settings_collection
        (node_of (handle_get_all_activity_settings_sync split_central
           [Activity_settings_report report_B] ?n1))) = 2"
    using second [THEN conjunct2, THEN conjunct2, THEN conjunct2, THEN conjunct1] central id1
    by simp
  have tail2: "(\<exists>sync. response_of (handle_get_all_activity_settings_sync split_central
          [Activity_settings_report report_B] ?n1) =
        Response_get_all_activity_settings
          \<lparr>all_settings = [\<lparr>idle_ms = 30000, sleep_ms = 900000, source = 0\<rparr>],
           in_sync = sync\<rparr>)
     \<and> unat (count (settings_collection
        (node_of (handle_get_all_activity_settings_sync split_central
           [Activity_settings_report report_B] ?n1)))) = 0"
    using second [THEN conjunct2, THEN conjunct2, THEN conjunct2, THEN conjunct2,
                 THEN conjunct2, THEN conjunct2, THEN mp, OF len1] central id1 act1
    by (simp add: node0_def report_B_def MAX_PERIPHERALS_def)
  show ?thesis
    using s1 s2 id1 cnt1 tailL id2 tail2 by (intro conjI) simp_all
qed

text \<open>
  C3 as written fails: in the build of a split peripheral, and in the build of a
  keyboard that is not split, the handler raises no request and leaves the request id
  of the node as it was.
\<close>

theorem get_all_not_central_counterexample:
  "request_id (settings_collection
      (node_of (handle_get_all_activity_settings_sync split_peripheral [] node0))) = 0
   \<and> request_id (settings_collection node0) = 0
   \<and> raised (effects_of (handle_get_all_activity_settings_sync split_peripheral [] node0)) = []
   \<and> node_of (handle_get_all_activity_settings_sync standalone [] node0) = node0
   \<and> raised (effects_of (handle_get_all_activity_settings_sync standalone [] node0)) = []"
  by (simp add: handle_get_all_activity_settings_sync_def split_peripheral_def standalone_def
      node0_def settings_collection_init_def node_of_def effects_of_def)

text \<open>The scenario of two answering peripherals, the second out of step, computed.\<close>

lemma scenario_A_B:
  "handle_get_all_activity_settings_sync split_central
       [Activity_settings_report report_A, Activity_settings_report report_B] node0 =
     (0,
      Response_get_all_activity_settings
        \<lparr>all_settings = [\<lparr>idle_ms = 30000, sleep_ms = 900000, source = 0\<rparr>,
                         \<lparr>idle_ms = 30000, sleep_ms = 900000, source = 1\<rparr>,
                         \<lparr>idle_ms = 10000, sleep_ms = 900000, source = 2\<rparr>],
         in_sync = False\<rparr>,
      node0\<lparr>settings_collection :=
          \<lparr>settings = [\<lparr>idle_ms = 30000, sleep_ms = 900000, source = 1\<rparr>,
                       \<lparr>idle_ms = 10000, sleep_ms = 900000, source = 2\<rparr>,
                       zero_settings, zero_settings, zero_settings, zero_settings,
                       zero_settings, zero_settings, zero_settings],
           count = 2, request_id = 1\<rparr>\<rparr>,
      [Raise (Activity_settings_request \<lparr>req_request_id = 1\<rparr>),
       Log_wrn_mismatch \<lparr>idle_ms = 10000, sleep_ms = 900000, source = 2\<rparr>])"
  by code_simp

section \<open>C4: the in-sync verdict\<close>

text \<open>
  C4. The bounded get-all answers with a non-empty sequence, and its verdict \<open>in_sync\<close>
  is true exactly when every entry has the idle and sleep timeouts of the first entry.
  It is true whenever the sequence has one entry, which is the case when no report
  arrived in the window. When it is false, exactly one mismatch warning is logged,
  and it names the first entry that differs from the first one.
\<close>

theorem in_sync_iff_all_entries_equal_first:
  "\<exists>g. response_of (handle_get_all_activity_settings_sync cfg arrivals n) =
          Response_get_all_activity_settings g
      \<and> all_settings g \<noteq> []
      \<and> in_sync g =
          (\<forall>e \<in> set (all_settings g).
              idle_ms e = idle_ms (all_settings g ! 0) \<and> sleep_ms e = sleep_ms (all_settings g ! 0))
      \<and> (length (all_settings g) = 1 \<longrightarrow> in_sync g)
      \<and> (arrivals = [] \<longrightarrow> length (all_settings g) = 1)
      \<and> (in_sync g \<longrightarrow>
            warned (effects_of (handle_get_all_activity_settings_sync cfg arrivals n)) = [])
      \<and> (\<not> in_sync g \<longrightarrow>
            (\<exists>k. 0 < k \<and> k < length (all_settings g)
               \<and> (idle_ms (all_settings g ! k) \<noteq> idle_ms (all_settings g ! 0)
                  \<or> sleep_ms (all_settings g ! k) \<noteq> sleep_ms (all_settings g ! 0))
               \<and> (\<forall>j < k. idle_ms (all_settings g ! j) = idle_ms (all_settings g ! 0)
                          \<and> sleep_ms (all_settings g ! j) = sleep_ms (all_settings g ! 0))
               \<and> warned (effects_of (handle_get_all_activity_settings_sync cfg arrivals n)) =
                   [all_settings g ! k]))"
proof -
  obtain g where g:
    "response_of (handle_get_all_activity_settings_sync cfg arrivals n) =
       Response_get_all_activity_settings g"
    "all_settings g \<noteq> []"
    "arrivals = [] \<longrightarrow> length (all_settings g) = 1"
    "in_sync g = fst (check_in_sync (all_settings g))"
    "warned (effects_of (handle_get_all_activity_settings_sync cfg arrivals n)) =
       warned (snd (check_in_sync (all_settings g)))"
    using get_all_sync_response [of cfg arrivals n] by blast
  define res where "res = all_settings g"
  define P where "P e = (idle_ms e = idle_ms (res ! 0) \<and> sleep_ms e = sleep_ms (res ! 0))"
    for e :: zmk_settings_ActivitySettings
  define Q where "Q e = (idle_ms e \<noteq> idle_ms (res ! 0) \<or> sleep_ms e \<noteq> sleep_ms (res ! 0))"
    for e :: zmk_settings_ActivitySettings
  have PQ: "Q e = (\<not> P e)" for e by (simp add: P_def Q_def)
  have sync: "in_sync g = fst (check_in_sync res)" by (simp add: g(4) res_def)
  have verdict: "in_sync g = (\<forall>e \<in> set res. P e)"
    unfolding P_def sync by (rule check_in_sync_verdict)
  have one: "length res = 1 \<longrightarrow> in_sync g"
  proof
    assume "length res = 1"
    then have "check_in_sync res = (True, [])" by (simp add: check_in_sync_def)
    then show "in_sync g" by (simp add: sync)
  qed
  have split: "fst (check_in_sync res) \<and> snd (check_in_sync res) = []
       \<or> \<not> fst (check_in_sync res) \<and>
         (\<exists>k. 0 < k \<and> k < length res \<and> Q (res ! k) \<and> (\<forall>j < k. P (res ! j))
              \<and> snd (check_in_sync res) = [Log_wrn_mismatch (res ! k)])"
    unfolding P_def Q_def by (rule check_in_sync_warning)
  have quiet: "in_sync g \<longrightarrow> warned (snd (check_in_sync res)) = []"
    using split by (auto simp: sync)
  have loud: "\<not> in_sync g \<longrightarrow>
           (\<exists>k. 0 < k \<and> k < length res \<and> Q (res ! k) \<and> (\<forall>j < k. P (res ! j))
               \<and> warned (snd (check_in_sync res)) = [res ! k])"
  proof
    assume "\<not> in_sync g"
    with split obtain k where k: "0 < k" "k < length res" "Q (res ! k)" "\<forall>j < k. P (res ! j)"
        "snd (check_in_sync res) = [Log_wrn_mismatch (res ! k)]"
      unfolding sync by blast
    have "warned (snd (check_in_sync res)) = [res ! k]" by (simp add: k(5))
    with k(1-4) show "\<exists>k. 0 < k \<and> k < length res \<and> Q (res ! k) \<and> (\<forall>j < k. P (res ! j))
               \<and> warned (snd (check_in_sync res)) = [res ! k]"
      by blast
  qed
  have eff: "warned (effects_of (handle_get_all_activity_settings_sync cfg arrivals n)) =
       warned (snd (check_in_sync res))"
    by (simp add: g(5) res_def)
  have "response_of (handle_get_all_activity_settings_sync cfg arrivals n) =
          Response_get_all_activity_settings g
      \<and> res \<noteq> []
      \<and> in_sync g = (\<forall>e \<in> set res. P e)
      \<and> (length res = 1 \<longrightarrow> in_sync g)
      \<and> (arrivals = [] \<longrightarrow> length res = 1)
      \<and> (in_sync g \<longrightarrow>
            warned (effects_of (handle_get_all_activity_settings_sync cfg arrivals n)) = [])
      \<and> (\<not> in_sync g \<longrightarrow>
            (\<exists>k. 0 < k \<and> k < length res \<and> Q (res ! k) \<and> (\<forall>j < k. P (res ! j))
               \<and> warned (effects_of (handle_get_all_activity_settings_sync cfg arrivals n)) =
                   [res ! k]))"
    unfolding eff
    using g(1) g(2) [folded res_def] g(3) [folded res_def] verdict one quiet loud
    by (intro conjI)
  then show ?thesis
    unfolding P_def Q_def res_def by (rule exI)
qed

theorem in_sync_witness:
  "response_of (handle_get_all_activity_settings_sync split_central
       [Activity_settings_report report_A, Activity_settings_report report_B] node0) =
     Response_get_all_activity_settings
        \<lparr>all_settings = [\<lparr>idle_ms = 30000, sleep_ms = 900000, source = 0\<rparr>,
                         \<lparr>idle_ms = 30000, sleep_ms = 900000, source = 1\<rparr>,
                         \<lparr>idle_ms = 10000, sleep_ms = 900000, source = 2\<rparr>],
         in_sync = False\<rparr>
   \<and> warned (effects_of (handle_get_all_activity_settings_sync split_central
       [Activity_settings_report report_A, Activity_settings_report report_B] node0)) =
     [\<lparr>idle_ms = 10000, sleep_ms = 900000, source = 2\<rparr>]
   \<and> in_sync_loop [\<lparr>idle_ms = 30000, sleep_ms = 900000, source = 0\<rparr>,
                   \<lparr>idle_ms = 30000, sleep_ms = 900000, source = 1\<rparr>] 30000 900000 1 = (True, [])"
  using in_sync_iff_all_entries_equal_first [of split_central
      "[Activity_settings_report report_A, Activity_settings_report report_B]" node0]
  by (simp add: scenario_A_B response_of_def effects_of_def in_sync_loop.simps)

section \<open>C5: get-all streamed through notifications\<close>

text \<open>
  C5, as amended. The streamed get-all first sends a notification carrying this node's
  own stored value with source 0; then, in a build that is the central of a split
  (\<^verbatim>\<open>CONFIG_ZMK_SPLIT\<close> and \<^verbatim>\<open>CONFIG_ZMK_SPLIT_ROLE_CENTRAL\<close>), it raises a settings
  request with request id 0, and in any other build it raises none; in every build it
  returns 0 at once with \<open>request_sent\<close> set and the node unchanged. Every report
  delivered to the central's report listener becomes one notification with the report's
  values and source: no id is compared, no state is kept, no verdict is computed.
\<close>

theorem streamed_get_all_notifies_then_requests:
  "handle_get_all_activity_settings cfg n =
     (0, Response_get_all_activity_settings \<lparr>request_sent = True\<rparr>, n,
      Studio_notification (subsystem_index n)
        \<lparr>idle_ms = act_idle_ms (activity n), sleep_ms = act_sleep_ms (activity n), source = 0\<rparr> #
      (if CONFIG_ZMK_SPLIT cfg \<and> CONFIG_ZMK_SPLIT_ROLE_CENTRAL cfg
       then [Raise (Activity_settings_request \<lparr>req_request_id = 0\<rparr>)] else []))
   \<and> activity_settings_report_listener (Activity_settings_report r) n =
     (ZMK_EV_EVENT_BUBBLE, n,
      [Studio_notification (subsystem_index n)
         \<lparr>idle_ms = rep_idle_ms r, sleep_ms = rep_sleep_ms r, source = ucast (rep_source r)\<rparr>])"
  by (simp add: handle_get_all_activity_settings_def activity_settings_report_listener_def
      send_activity_settings_notification_def zmk_activity_get_idle_ms_def
      zmk_activity_get_sleep_ms_def)

text \<open>
  C5 as written fails: on a keyboard that is not split the handler sends the notification
  and answers \<open>request_sent\<close>, and raises no request.
\<close>

theorem streamed_get_all_standalone_counterexample:
  "raised (effects_of (handle_get_all_activity_settings standalone node0)) = []
   \<and> response_of (handle_get_all_activity_settings standalone node0) =
       Response_get_all_activity_settings \<lparr>request_sent = True\<rparr>"
  by (simp add: handle_get_all_activity_settings_def send_activity_settings_notification_def
      effects_of_def response_of_def standalone_def)

section \<open>C6: a value the store rejects\<close>

text \<open>
  C6, as amended. When the store rejects the value (either setter refuses its field),
  the set handler raises no change event, returns \<open>-1\<close> with a response that reports no
  success, and the router answers the caller with the error response. A field whose
  setter refused keeps its stored value; a field whose setter accepted is written, so
  the stored settings are unchanged only where the setter refused.
\<close>

theorem rejected_set_raises_nothing_and_reports_error:
  fixes R :: "int \<times> get_all_started zmk_settings_Response \<times> node \<times> effect list"
  assumes "\<not> store_accepts b v" and "R = handle_set_activity_settings cfg b v n"
  shows "raised (effects_of R) = []
       \<and> result_of R = - 1
       \<and> response_of R = Response_set_activity_settings False
       \<and> act_idle_ms (activity (node_of R)) =
           (if idle_ok b (idle_ms v) then idle_ms v else act_idle_ms (activity n))
       \<and> act_sleep_ms (activity (node_of R)) =
           (if sleep_ok b (sleep_ms v) then sleep_ms v else act_sleep_ms (activity n))
       \<and> (pb_decode (payload raw) = Some (Request_set_activity_settings v) \<longrightarrow>
            response_of (settings_rpc_handle_request cfg b pb_decode raw n) =
              Response_error ''Failed to process request''
          \<and> response_of (settings_rpc_handle_request_sync cfg b pb_decode arrivals raw n) =
              Response_error ''Failed to process request'')"
  using assms(1) unfolding assms(2)
  by (simp add: handle_set_eq effects_of_def result_of_def response_of_def node_of_def raised_append
      error_on_failure_def settings_rpc_handle_request_def settings_rpc_handle_request_sync_def)

theorem rejected_set_witness:
  "\<not> store_accepts refuse_zero_sleep \<lparr>idle_ms = 5000, sleep_ms = 0, source = 0\<rparr>
   \<and> raised (effects_of (handle_set_activity_settings split_central refuse_zero_sleep
        \<lparr>idle_ms = 5000, sleep_ms = 0, source = 0\<rparr> node0
        :: int \<times> get_all_started zmk_settings_Response \<times> node \<times> effect list)) = []
   \<and> response_of (settings_rpc_handle_request split_central refuse_zero_sleep
        (\<lambda>bytes. Some (Request_set_activity_settings \<lparr>idle_ms = 5000, sleep_ms = 0, source = 0\<rparr>))
        \<lparr>call_subsystem_index = 0, payload = []\<rparr> node0) =
       Response_error ''Failed to process request''"
proof -
  have rej: "\<not> store_accepts refuse_zero_sleep \<lparr>idle_ms = 5000, sleep_ms = 0, source = 0\<rparr>"
    by (simp add: store_accepts_def refuse_zero_sleep_def)
  show ?thesis
    using rej rejected_set_raises_nothing_and_reports_error [OF rej refl,
      of split_central node0
         "\<lambda>bytes. Some (Request_set_activity_settings \<lparr>idle_ms = 5000, sleep_ms = 0, source = 0\<rparr>)"
         "\<lparr>call_subsystem_index = 0, payload = []\<rparr>"]
    by simp
qed

text \<open>
  C6 as written fails: with a store that refuses a zero sleep timeout, the value
  (5000, 0) is rejected and the stored idle timeout has changed from 30000 to 5000.
\<close>

theorem rejected_set_partial_write_counterexample:
  "\<not> store_accepts refuse_zero_sleep \<lparr>idle_ms = 5000, sleep_ms = 0, source = 0\<rparr>
   \<and> activity (node_of (handle_set_activity_settings split_central refuse_zero_sleep
        \<lparr>idle_ms = 5000, sleep_ms = 0, source = 0\<rparr> node0
        :: int \<times> unit zmk_settings_Response \<times> node \<times> effect list))
      = \<lparr>act_idle_ms = 5000, act_sleep_ms = 900000\<rparr>
   \<and> activity node0 = \<lparr>act_idle_ms = 30000, act_sleep_ms = 900000\<rparr>"
  by (simp add: handle_set_eq node_of_def store_accepts_def refuse_zero_sleep_def node0_def)

section \<open>C7: the follower's report\<close>

text \<open>
  C7. For every settings request delivered to the request listener of a peripheral, the
  listener raises exactly one report: its values are the node's stored idle and sleep
  timeouts, its source is the self marker (the relay writes the real source), and its
  request id is the one of the request. The node is unchanged and the event bubbles.
  The listener is the same text in both revisions of the handler and in
  \<^verbatim>\<open>src/events/\<close>; it never looks at the collection strategy.
\<close>

theorem follower_reports_own_settings_with_request_id:
  "activity_settings_request_listener (Activity_settings_request ev) n =
     (ZMK_EV_EVENT_BUBBLE, n,
      [Raise (Activity_settings_report
         \<lparr>rep_idle_ms = act_idle_ms (activity n), rep_sleep_ms = act_sleep_ms (activity n),
          rep_source = ZMK_RELAY_EVENT_SOURCE_SELF, rep_request_id = req_request_id ev\<rparr>)])"
  by (simp add: activity_settings_request_listener_def zmk_activity_get_idle_ms_def
      zmk_activity_get_sleep_ms_def)

section \<open>C8: write, then read\<close>

text \<open>
  C8. For every value \<open>v\<close> the store accepts, the set handler followed at once by the
  get handler answers with the idle and sleep timeouts of \<open>v\<close>, in every build: whether
  the change event is raised, and what becomes of it, has no part in it.
\<close>

theorem set_then_get_returns_value:
  assumes "store_accepts b v"
  shows "(handle_get_activity_settings
            (node_of (handle_set_activity_settings cfg b v n
               :: int \<times> 'g zmk_settings_Response \<times> node \<times> effect list))
          :: int \<times> 'h zmk_settings_Response \<times> node \<times> effect list) =
         (0, Response_get_activity_settings
               \<lparr>idle_ms = idle_ms v, sleep_ms = sleep_ms v, source = 0\<rparr>,
          node_of (handle_set_activity_settings cfg b v n
               :: int \<times> 'g zmk_settings_Response \<times> node \<times> effect list), [])"
  using assms unfolding handle_set_eq
  by (simp add: handle_get_activity_settings_def node_of_def store_accepts_def zero_settings_def
      zmk_activity_get_idle_ms_def zmk_activity_get_sleep_ms_def)

theorem set_then_get_witness:
  "store_accepts refuse_zero_sleep \<lparr>idle_ms = 5000, sleep_ms = 60000, source = 7\<rparr>
   \<and> response_of (handle_get_activity_settings
        (node_of (handle_set_activity_settings standalone refuse_zero_sleep
           \<lparr>idle_ms = 5000, sleep_ms = 60000, source = 7\<rparr> node0
           :: int \<times> unit zmk_settings_Response \<times> node \<times> effect list))
        :: int \<times> unit zmk_settings_Response \<times> node \<times> effect list) =
      Response_get_activity_settings \<lparr>idle_ms = 5000, sleep_ms = 60000, source = 0\<rparr>"
proof -
  have acc: "store_accepts refuse_zero_sleep \<lparr>idle_ms = 5000, sleep_ms = 60000, source = 7\<rparr>"
    by (simp add: store_accepts_def refuse_zero_sleep_def)
  show ?thesis
    using acc set_then_get_returns_value [OF acc, of standalone node0,
      where ?'g = unit and ?'h = unit]
    by (simp add: response_of_def)
qed

text \<open>The router returns true whatever the handler returned.\<close>

lemma error_on_failure_result: "result_of (error_on_failure r) = True"
  by (cases r) (simp add: error_on_failure_def result_of_def)

section \<open>C9: malformed and unsupported requests\<close>

text \<open>
  C9. When the payload of a request does not decode, the router (in both revisions)
  writes the error response and returns true, touching nothing but the stored subsystem
  index; a request that decodes to a kind the router does not know gets the error
  response as well. Whatever the request, the router returns true.
\<close>

theorem bad_request_gets_error_response:
  "(pb_decode (payload raw) = None \<longrightarrow>
      settings_rpc_handle_request cfg b pb_decode raw n =
        (True, Response_error ''Failed to decode request'',
         n\<lparr>subsystem_index := ucast (call_subsystem_index raw)\<rparr>, [Log_wrn_decode])
    \<and> settings_rpc_handle_request_sync cfg b pb_decode arrivals raw n =
        (True, Response_error ''Failed to decode request'', n, [Log_wrn_decode]))
   \<and> (pb_decode (payload raw) = Some (Request_other t) \<longrightarrow>
      settings_rpc_handle_request cfg b pb_decode raw n =
        (True, Response_error ''Failed to process request'',
         n\<lparr>subsystem_index := ucast (call_subsystem_index raw)\<rparr>, [Log_wrn_unsupported t])
    \<and> settings_rpc_handle_request_sync cfg b pb_decode arrivals raw n =
        (True, Response_error ''Failed to process request'', n, [Log_wrn_unsupported t]))
   \<and> result_of (settings_rpc_handle_request cfg b pb_decode raw n) = True
   \<and> result_of (settings_rpc_handle_request_sync cfg b pb_decode arrivals raw n) = True"
proof -
  have r1: "result_of (settings_rpc_handle_request cfg b pb_decode raw n) = True"
    by (simp add: settings_rpc_handle_request_def error_on_failure_result Let_def
        split: option.split zmk_settings_Request.split)
       (simp add: result_of_def)
  have r2: "result_of (settings_rpc_handle_request_sync cfg b pb_decode arrivals raw n) = True"
    by (simp add: settings_rpc_handle_request_sync_def error_on_failure_result
        split: option.split zmk_settings_Request.split)
       (simp add: result_of_def)
  show ?thesis
    using r1 r2
    by (simp add: settings_rpc_handle_request_def settings_rpc_handle_request_sync_def)
qed

theorem bad_request_witness:
  "response_of (settings_rpc_handle_request split_central accept_all (\<lambda>bytes. None)
      \<lparr>call_subsystem_index = 3, payload = [0xFF, 0xFF]\<rparr> node0) =
     Response_error ''Failed to decode request''
   \<and> response_of (settings_rpc_handle_request_sync split_central accept_all
      (\<lambda>bytes. Some (Request_other 0)) []
      \<lparr>call_subsystem_index = 3, payload = []\<rparr> node0) =
     Response_error ''Failed to process request''"
  using bad_request_gets_error_response [of "\<lambda>bytes. None"
           "\<lparr>call_subsystem_index = 3, payload = [0xFF, 0xFF]\<rparr>" split_central accept_all node0]
        bad_request_gets_error_response [of "\<lambda>bytes. Some (Request_other 0)"
           "\<lparr>call_subsystem_index = 3, payload = []\<rparr>" split_central accept_all node0 "[]" 0]
  by (simp add: response_of_def)

section \<open>C10: the collection never overflows\<close>

text \<open>A node whose collection is full: the central after a get-all that nine reports answered.\<close>

lemma nine_reports_fill:
  "count (settings_collection
     (node_of (handle_get_all_activity_settings_sync split_central nine_reports node0))) = 8"
  by (simp add: get_all_sync_node_collection split_central_def nine_reports_def
      node0_def settings_collection_init_def
      report_listener_sync_eq report_A_def report_B_def MAX_PERIPHERALS_def)

text \<open>
  C10. In every state a node can reach, the count of the collection is at most
  \<^verbatim>\<open>MAX_PERIPHERALS\<close> = 8 and the array has its 9 entries. The report listener writes only
  when the count is below 8, at the index the count gives, inside the array, and then
  adds one to the count; when the collection is full, a report (any event) leaves the
  collection exactly as it was. The answer of a get-all has at most 9 entries.
\<close>

theorem collection_count_never_exceeds_max:
  assumes "reachable cfg b n"
  shows "unat (count (settings_collection n)) \<le> MAX_PERIPHERALS
       \<and> MAX_PERIPHERALS = 8
       \<and> length (settings (settings_collection n)) = MAX_PERIPHERALS + 1
       \<and> (unat (count (settings_collection n)) = MAX_PERIPHERALS \<longrightarrow>
            activity_settings_report_listener_sync eh (settings_collection n) =
              (ZMK_EV_EVENT_BUBBLE, settings_collection n))
       \<and> (rep_request_id r = request_id (settings_collection n)
            \<and> unat (count (settings_collection n)) < MAX_PERIPHERALS \<longrightarrow>
            unat (count (settings_collection n)) < length (settings (settings_collection n))
          \<and> settings (snd (activity_settings_report_listener_sync (Activity_settings_report r)
                (settings_collection n))) ! unat (count (settings_collection n)) =
              \<lparr>idle_ms = rep_idle_ms r, sleep_ms = rep_sleep_ms r, source = ucast (rep_source r)\<rparr>
          \<and> unat (count (snd (activity_settings_report_listener_sync (Activity_settings_report r)
                (settings_collection n)))) = unat (count (settings_collection n)) + 1)
       \<and> (\<exists>g. response_of (handle_get_all_activity_settings_sync cfg arrivals n) =
                 Response_get_all_activity_settings g
             \<and> length (all_settings g) \<le> MAX_PERIPHERALS + 1)"
proof -
  let ?c = "settings_collection n"
  have inv: "unat (count ?c) \<le> MAX_PERIPHERALS" "length (settings ?c) = MAX_PERIPHERALS + 1"
    using reachable_collection_inv [OF assms] by simp_all
  have full: "unat (count ?c) = MAX_PERIPHERALS \<longrightarrow>
      activity_settings_report_listener_sync eh ?c = (ZMK_EV_EVENT_BUBBLE, ?c)"
    by (simp add: report_listener_sync_full)
  have room: "rep_request_id r = request_id ?c \<and> unat (count ?c) < MAX_PERIPHERALS \<longrightarrow>
            unat (count ?c) < length (settings ?c)
          \<and> settings (snd (activity_settings_report_listener_sync (Activity_settings_report r) ?c))
               ! unat (count ?c) =
              \<lparr>idle_ms = rep_idle_ms r, sleep_ms = rep_sleep_ms r, source = ucast (rep_source r)\<rparr>
          \<and> unat (count (snd (activity_settings_report_listener_sync (Activity_settings_report r)
                ?c))) = unat (count ?c) + 1"
  proof
    assume a: "rep_request_id r = request_id ?c \<and> unat (count ?c) < MAX_PERIPHERALS"
    then have inb: "unat (count ?c) < length (settings ?c)" using inv(2) by simp
    have "unat (count ?c + 1) = unat (count ?c) + 1" using a by (simp add: unat_count_succ)
    with a inb show "unat (count ?c) < length (settings ?c)
          \<and> settings (snd (activity_settings_report_listener_sync (Activity_settings_report r) ?c))
               ! unat (count ?c) =
              \<lparr>idle_ms = rep_idle_ms r, sleep_ms = rep_sleep_ms r, source = ucast (rep_source r)\<rparr>
          \<and> unat (count (snd (activity_settings_report_listener_sync (Activity_settings_report r)
                ?c))) = unat (count ?c) + 1"
      by (simp add: report_listener_sync_eq)
  qed
  have answer: "\<exists>g. response_of (handle_get_all_activity_settings_sync cfg arrivals n) =
                 Response_get_all_activity_settings g
             \<and> length (all_settings g) \<le> MAX_PERIPHERALS + 1"
    using get_all_sync_response [of cfg arrivals n] by blast
  show ?thesis
    using inv full room answer by (simp add: MAX_PERIPHERALS_def)
qed

theorem collection_full_witness:
  "reachable split_central accept_all
     (node_of (handle_get_all_activity_settings_sync split_central nine_reports node0))
   \<and> unat (count (settings_collection
        (node_of (handle_get_all_activity_settings_sync split_central nine_reports node0)))) = 8
   \<and> activity_settings_report_listener_sync (Activity_settings_report report_B)
        (settings_collection
          (node_of (handle_get_all_activity_settings_sync split_central nine_reports node0))) =
      (ZMK_EV_EVENT_BUBBLE,
       settings_collection
          (node_of (handle_get_all_activity_settings_sync split_central nine_reports node0)))
   \<and> rep_request_id report_A = request_id (settings_collection
        (node_of (handle_get_all_activity_settings_sync split_central [] node0)))
   \<and> unat (count (snd (activity_settings_report_listener_sync (Activity_settings_report report_A)
        (settings_collection
          (node_of (handle_get_all_activity_settings_sync split_central [] node0)))))) = 1"
proof -
  have r0: "reachable split_central accept_all node0"
    by (rule reachable.boot) (simp add: node0_def)
  have r9: "reachable split_central accept_all
     (node_of (handle_get_all_activity_settings_sync split_central nine_reports node0))"
    using r0 by (rule reachable.get_all_handled)
  have r1: "reachable split_central accept_all
     (node_of (handle_get_all_activity_settings_sync split_central [] node0))"
    using r0 by (rule reachable.get_all_handled)
  have c1: "settings_collection
      (node_of (handle_get_all_activity_settings_sync split_central [] node0)) =
      settings_collection_init\<lparr>request_id := 1\<rparr>"
    by (simp add: get_all_sync_node_collection split_central_def node0_def
        settings_collection_init_def)
  let ?c9 = "settings_collection
      (node_of (handle_get_all_activity_settings_sync split_central nine_reports node0))"
  let ?c1 = "settings_collection
      (node_of (handle_get_all_activity_settings_sync split_central [] node0))"
  have f9: "unat (count ?c9) = MAX_PERIPHERALS"
    by (simp add: nine_reports_fill MAX_PERIPHERALS_def)
  have full: "activity_settings_report_listener_sync (Activity_settings_report report_B) ?c9 =
      (ZMK_EV_EVENT_BUBBLE, ?c9)"
    using collection_count_never_exceeds_max [OF r9, of "Activity_settings_report report_B",
        THEN conjunct2, THEN conjunct2, THEN conjunct2, THEN conjunct1] f9
    by (rule mp)
  have p1: "rep_request_id report_A = request_id ?c1 \<and> unat (count ?c1) < MAX_PERIPHERALS"
    by (simp add: c1 report_A_def settings_collection_init_def MAX_PERIPHERALS_def)
  have "unat (count ?c1) < length (settings ?c1)
      \<and> settings (snd (activity_settings_report_listener_sync (Activity_settings_report report_A)
            ?c1)) ! unat (count ?c1) =
          \<lparr>idle_ms = rep_idle_ms report_A, sleep_ms = rep_sleep_ms report_A,
           source = ucast (rep_source report_A)\<rparr>
      \<and> unat (count (snd (activity_settings_report_listener_sync
            (Activity_settings_report report_A) ?c1))) = unat (count ?c1) + 1"
    using collection_count_never_exceeds_max [OF r1, of _ report_A,
        THEN conjunct2, THEN conjunct2, THEN conjunct2, THEN conjunct2, THEN conjunct1] p1
    by (rule mp)
  then have q1: "unat (count (snd (activity_settings_report_listener_sync
            (Activity_settings_report report_A) ?c1))) = unat (count ?c1) + 1"
    by (rule conjunct2 [THEN conjunct2])
  have z1: "unat (count ?c1) = 0" by (simp add: c1 settings_collection_init_def)
  have e9: "unat (count ?c9) = 8" using f9 by (simp add: MAX_PERIPHERALS_def)
  have e1: "unat (count (snd (activity_settings_report_listener_sync
            (Activity_settings_report report_A) ?c1))) = 1"
    using q1 z1 by simp
  show ?thesis
    using r9 e9 full p1 [THEN conjunct1] e1 by (intro conjI)
qed

end
